theory Spec2Isabelle
  imports Main "HOL-Library.AList"
begin

section \<open>Strings\<close>

text \<open>
  A JavaScript string is modelled as a \<^typ>\<open>string\<close>: a list of characters, each one
  code unit in the range U+0000 .. U+00FF.  The characters the parser singles out are
  named here.
\<close>

definition nl :: char where "nl = CHR 0x0A"
definition cr :: char where "cr = CHR 0x0D"
definition dquote :: char where "dquote = CHR 0x22"
definition squote :: char where "squote = CHR 0x27"
definition eqChar :: char where "eqChar = CHR ''=''"
definition hashChar :: char where "hashChar = CHR ''#''"

text \<open>
  \<^verbatim>\<open>String.prototype.trim\<close> strips white space and line terminators: in the
  modelled range these are TAB, LF, VT, FF, CR, SPACE and U+00A0.
\<close>

definition isWhiteSpace :: "char \<Rightarrow> bool" where
  "isWhiteSpace c \<longleftrightarrow> c \<in> {CHR 0x09, CHR 0x0A, CHR 0x0B, CHR 0x0C, CHR 0x0D, CHR 0x20, CHR 0xA0}"

definition trim :: "string \<Rightarrow> string" where
  "trim s = rev (dropWhile isWhiteSpace (rev (dropWhile isWhiteSpace s)))"

text \<open>The dot of a regular expression (no \<^verbatim>\<open>s\<close> flag) matches anything but a line terminator.\<close>

definition isLineTerminator :: "char \<Rightarrow> bool" where
  "isLineTerminator c \<longleftrightarrow> c = nl \<or> c = cr"

text \<open>The character classes \<^verbatim>\<open>[A-Za-z_]\<close> and \<^verbatim>\<open>[A-Za-z0-9_]\<close>.\<close>

definition isKeyStart :: "char \<Rightarrow> bool" where
  "isKeyStart c \<longleftrightarrow>
     (let n = (of_char c :: nat)
      in (65 \<le> n \<and> n \<le> 90) \<or> (97 \<le> n \<and> n \<le> 122) \<or> n = 95)"

definition isKeyChar :: "char \<Rightarrow> bool" where
  "isKeyChar c \<longleftrightarrow>
     (let n = (of_char c :: nat)
      in (65 \<le> n \<and> n \<le> 90) \<or> (97 \<le> n \<and> n \<le> 122) \<or> (48 \<le> n \<and> n \<le> 57) \<or> n = 95)"

definition startsWith :: "string \<Rightarrow> char \<Rightarrow> bool" where
  "startsWith s c \<longleftrightarrow> (case s of [] \<Rightarrow> False | x # _ \<Rightarrow> x = c)"

definition endsWith :: "string \<Rightarrow> char \<Rightarrow> bool" where
  "endsWith s c \<longleftrightarrow> (case rev s of [] \<Rightarrow> False | x # _ \<Rightarrow> x = c)"

text \<open>
  \<^verbatim>\<open>content.split(/\r?\n/)\<close>: the text is cut at every LF, and a CR standing
  directly before that LF belongs to the separator.  The empty text gives one empty
  line.
\<close>

fun consHead :: "char \<Rightarrow> string list \<Rightarrow> string list" where
  "consHead c [] = [[c]]"
| "consHead c (l # ls) = (c # l) # ls"

fun splitLines :: "string \<Rightarrow> string list" where
  "splitLines [] = [[]]"
| "splitLines [c] = (if c = nl then [[], []] else [[c]])"
| "splitLines (c # d # cs) =
     (if c = nl then [] # splitLines (d # cs)
      else if c = cr \<and> d = nl then [] # splitLines cs
      else consHead c (splitLines (d # cs)))"

section \<open>The secret content parser\<close>

text \<open>
  \<^verbatim>\<open>trimmed.match(/^([A-Za-z_][A-Za-z0-9_]*)=(.*)$/)\<close>: the key is the longest
  run of key characters at the start, it must begin with a letter or underscore and
  be followed by \<^verbatim>\<open>=\<close>; the value is the rest of the line, which must hold no line
  terminator since \<^verbatim>\<open>$\<close> only matches at the end of the input.
\<close>

definition matchKeyValue :: "string \<Rightarrow> (string \<times> string) option" where
  "matchKeyValue t =
     (let k = takeWhile isKeyChar t; rest = dropWhile isKeyChar t
      in case k of
           [] \<Rightarrow> None
         | k0 # _ \<Rightarrow>
             if \<not> isKeyStart k0 then None
             else (case rest of
                     [] \<Rightarrow> None
                   | e # v \<Rightarrow>
                       if e = eqChar \<and> \<not> list_ex isLineTerminator v then Some (k, v)
                       else None))"

text \<open>
  The quote handling of lines 69 to 75.  \<^verbatim>\<open>value.slice(1, -1)\<close> drops the first and
  the last character; on a one-character string it gives the empty string.
  \<^const>\<open>None\<close> stands for the \<^verbatim>\<open>continue\<close> of the mismatched-quote branch.
\<close>

definition unquote :: "string \<Rightarrow> string option" where
  "unquote v =
     (if (startsWith v dquote \<and> endsWith v dquote) \<or> (startsWith v squote \<and> endsWith v squote)
      then Some (butlast (tl v))
      else if (startsWith v dquote \<and> \<not> endsWith v dquote)
              \<or> (startsWith v squote \<and> \<not> endsWith v squote)
      then None
      else Some v)"

text \<open>
  The result object \<^verbatim>\<open>Record<string, string>\<close>, created as \<^verbatim>\<open>{}\<close>, is an association
  list of its own properties in insertion order.  \<^verbatim>\<open>result[key] = value\<close> on a key
  that is present overwrites its value in place, a new key goes to the end
  (\<^const>\<open>AList.update\<close>).  The one exception is the key \<^verbatim>\<open>__proto__\<close>: the object
  inherits a setter for it, which ignores a string, so the assignment stores nothing.
\<close>

definition protoKey :: string where
  "protoKey = ''__proto__''"

definition assign :: "string \<Rightarrow> string \<Rightarrow> (string \<times> string) list \<Rightarrow> (string \<times> string) list" where
  "assign key v result = (if key = protoKey then result else AList.update key v result)"

definition parseLine :: "string \<Rightarrow> (string \<times> string) list \<Rightarrow> (string \<times> string) list" where
  "parseLine line result =
     (let trimmed = trim line
      in if trimmed = [] \<or> startsWith trimmed hashChar then result
         else (case matchKeyValue trimmed of
                 None \<Rightarrow> result
               | Some (key, v) \<Rightarrow>
                   (case unquote v of
                      None \<Rightarrow> result
                    | Some v' \<Rightarrow> assign key v' result)))"

fun parseLines :: "string list \<Rightarrow> (string \<times> string) list \<Rightarrow> (string \<times> string) list" where
  "parseLines [] result = result"
| "parseLines (line # lines) result = parseLines lines (parseLine line result)"

definition parseEnvFile :: "string \<Rightarrow> (string \<times> string) list" where
  "parseEnvFile content = parseLines (splitLines content) []"

text \<open>A key as the regular expression accepts it.\<close>

definition validKey :: "string \<Rightarrow> bool" where
  "validKey k \<longleftrightarrow> (case k of [] \<Rightarrow> False | c # cs \<Rightarrow> isKeyStart c \<and> list_all isKeyChar cs)"


text \<open>
  Modelled from the spec: writing a mapping back as \<^verbatim>\<open>KEY=value\<close> lines (section 8);
  the repository has no serializer.  The lines are joined by LF.
\<close>

fun joinLines :: "string list \<Rightarrow> string" where
  "joinLines [] = []"
| "joinLines [l] = l"
| "joinLines (l # m # ls) = l @ nl # joinLines (m # ls)"

definition toEnvLine :: "string \<times> string \<Rightarrow> string" where
  "toEnvLine kv = fst kv @ eqChar # snd kv"

definition toEnvLines :: "(string \<times> string) list \<Rightarrow> string" where
  "toEnvLines m = joinLines (map toEnvLine m)"

text \<open>The restriction the spec puts on values: no quote character and no newline.\<close>

definition plainValue :: "string \<Rightarrow> bool" where
  "plainValue v \<longleftrightarrow> dquote \<notin> set v \<and> squote \<notin> set v \<and> nl \<notin> set v"

definition plainValues :: "(string \<times> string) list \<Rightarrow> bool" where
  "plainValues m = list_all (\<lambda>kv. plainValue (snd kv)) m"

definition noTrailingSpace :: "string \<Rightarrow> bool" where
  "noTrailingSpace v \<longleftrightarrow> (case rev v of [] \<Rightarrow> True | c # _ \<Rightarrow> \<not> isWhiteSpace c)"

definition noTrailingSpaces :: "(string \<times> string) list \<Rightarrow> bool" where
  "noTrailingSpaces m = list_all (\<lambda>kv. noTrailingSpace (snd kv)) m"

text \<open>What every entry of a parse result satisfies.\<close>

definition wellFormedEntry :: "string \<times> string \<Rightarrow> bool" where
  "wellFormedEntry kv \<longleftrightarrow>
     validKey (fst kv) \<and> fst kv \<noteq> protoKey \<and> \<not> list_ex isLineTerminator (snd kv)"

section \<open>Data model\<close>

text \<open>
  What an operation throws, and the reason of a rejected promise, is any JavaScript
  value: an \<^verbatim>\<open>Error\<close> object with its message, \<^verbatim>\<open>undefined\<close>, \<^verbatim>\<open>null\<close>, or any
  other value, which is given by its string form \<^verbatim>\<open>String(value)\<close> and by its
  \<^verbatim>\<open>message\<close> property, when it has one.  Every value other than \<^verbatim>\<open>undefined\<close> and
  \<^verbatim>\<open>null\<close> is taken to have a string form, and a \<^verbatim>\<open>message\<close> property that is a
  string when it is there.
\<close>

datatype error = Error string | Undefined | Null | Value string "string option"

text \<open>
  \<^verbatim>\<open>error instanceof Error ? error.message : String(error)\<close> (lines 207 and 410)
\<close>

fun errorMessage :: "error \<Rightarrow> string" where
  "errorMessage (Error m) = m"
| "errorMessage Undefined = ''undefined''"
| "errorMessage Null = ''null''"
| "errorMessage (Value s m) = s"

text \<open>
  \<^verbatim>\<open>result.reason.message\<close> (lines 236 and 243): reading a property of
  \<^verbatim>\<open>undefined\<close> or \<^verbatim>\<open>null\<close> raises a \<^verbatim>\<open>TypeError\<close> (its message is worded as V8
  words it); a value without the property gives \<^verbatim>\<open>undefined\<close>.
\<close>

definition cannotReadMessage :: "string \<Rightarrow> error" where
  "cannotReadMessage what =
     Error (''Cannot read properties of '' @ what @ '' (reading 'message')'')"

fun reasonMessage :: "error \<Rightarrow> error + string option" where
  "reasonMessage (Error m) = Inr (Some m)"
| "reasonMessage Undefined = Inl (cannotReadMessage ''undefined'')"
| "reasonMessage Null = Inl (cannotReadMessage ''null'')"
| "reasonMessage (Value s m) = Inr m"

text \<open>
  \<^verbatim>\<open>Resource\<close> and \<^verbatim>\<open>Manifest\<close> with the fields the tests' manifests give them
  (\<^verbatim>\<open>serverId\<close> and \<^verbatim>\<open>healthCheck\<close> are optional).
\<close>

record healthCheck =
  hc_path :: string
  hc_port :: string

record resource =
  r_name :: string
  r_description :: string
  r_dockerImageName :: string
  r_envSecretName :: string
  r_domains :: string
  r_portsExposes :: string
  r_healthCheck :: "healthCheck option"

record manifest =
  m_projectId :: string
  m_destinationId :: string
  m_serverId :: "string option"
  m_environmentName :: string
  m_envFileSecretName :: string
  m_resources :: "resource list"

record coolifyEnvVar =
  ev_key :: string
  ev_value :: string
  is_preview :: "bool option"
  is_literal :: "bool option"
  is_multiline :: "bool option"
  is_shown_once :: "bool option"

record coolifyEnvVarResponse = coolifyEnvVar +
  ev_uuid :: string

record coolifyEnvironment =
  env_id :: int
  env_uuid :: string
  env_name :: string

text \<open>Of \<^verbatim>\<open>CoolifyApplication\<close> the reconciler reads three fields.\<close>

record coolifyApplication =
  app_uuid :: string
  app_name :: string
  app_environment_id :: int

datatype action = Created | Updated | Unchanged | Failed | Pruned

record reconcileResourceResult =
  res_name :: string
  res_action :: action
  res_uuid :: "string option"
  res_deploymentUuid :: "string option"
  res_error :: "string option"

record reconcileResult =
  success :: bool
  resources :: "reconcileResourceResult list"
  totalCreated :: nat
  totalUpdated :: nat
  totalFailed :: nat
  totalPruned :: nat

record reconcilerOptions =
  opt_manifest :: manifest
  opt_dockerTag :: string
  opt_envSecrets :: "(string \<rightharpoonup> string) option"
  opt_serverId :: "string option"

section \<open>Wire format\<close>

definition envVarsToCoolifyFormat :: "(string \<times> string) list \<Rightarrow> coolifyEnvVar list" where
  "envVarsToCoolifyFormat envVars =
     map (\<lambda>(key, v).
            \<lparr>ev_key = key, ev_value = v, is_preview = Some False, is_literal = Some True,
             is_multiline = Some (nl \<in> set v), is_shown_once = Some False\<rparr>) envVars"

section \<open>The remote API client\<close>

text \<open>
  The payload builders \<^verbatim>\<open>CoolifyClient.buildUpdateOptions\<close> and
  \<^verbatim>\<open>CoolifyClient.buildCreateOptions\<close> are static functions of the client class, which
  is not among the sources: a payload is represented by the arguments it is built from.
\<close>

datatype updateOptions = BuildUpdateOptions resource string

datatype createOptions = BuildCreateOptions resource string string string string string string

text \<open>
  The client is an interface.  Each operation, run on a state \<open>'s\<close> of the remote side,
  either returns (\<^const>\<open>Inr\<close>) or throws (\<^const>\<open>Inl\<close>), and leaves a new state.
  Absent (\<^verbatim>\<open>null\<close>) results are \<^const>\<open>None\<close>.  The operations are
  asynchronous functions: what one throws is the reason its promise is rejected with.
\<close>

record 's coolifyClient =
  findEnvironmentByName :: "string \<Rightarrow> string \<Rightarrow> 's \<Rightarrow> (error + coolifyEnvironment option) \<times> 's"
  findApplicationByName :: "string \<Rightarrow> int \<Rightarrow> 's \<Rightarrow> (error + coolifyApplication option) \<times> 's"
  listApplications :: "'s \<Rightarrow> (error + coolifyApplication list) \<times> 's"
  createDockerImageApplication :: "createOptions \<Rightarrow> 's \<Rightarrow> (error + string) \<times> 's"
  updateApplication :: "string \<Rightarrow> updateOptions \<Rightarrow> 's \<Rightarrow> (error + unit) \<times> 's"
  deleteApplication :: "string \<Rightarrow> 's \<Rightarrow> (error + unit) \<times> 's"
  listEnvironmentVariables :: "string \<Rightarrow> 's \<Rightarrow> (error + coolifyEnvVarResponse list) \<times> 's"
  updateEnvironmentVariables :: "string \<Rightarrow> coolifyEnvVar list \<Rightarrow> 's \<Rightarrow> (error + unit) \<times> 's"
  deleteEnvironmentVariable :: "string \<Rightarrow> string \<Rightarrow> 's \<Rightarrow> (error + unit) \<times> 's"
  deployApplication :: "string \<Rightarrow> 's \<Rightarrow> (error + string option) \<times> 's"
  waitForDeployment :: "string \<Rightarrow> 's \<Rightarrow> (error + unit) \<times> 's"

text \<open>The remote calls the reconciler issues, kept in the order in which they are issued.\<close>

datatype call =
    FindEnvironmentByName string string
  | FindApplicationByName string int
  | ListApplications
  | CreateDockerImageApplication createOptions
  | UpdateApplication string updateOptions
  | DeleteApplication string
  | ListEnvironmentVariables string
  | UpdateEnvironmentVariables string "coolifyEnvVar list"
  | DeleteEnvironmentVariable string string
  | DeployApplication string
  | WaitForDeployment string

text \<open>
  A run threads the state of the remote side and the log of calls.  An asynchronous
  function is a function of that pair which gives a settled promise, fulfilled or
  rejected, and the pair after it.
\<close>

type_synonym 's world = "'s \<times> call list"

type_synonym ('s, 'a) async = "'s world \<Rightarrow> (error + 'a) \<times> 's world"

definition invoke :: "call \<Rightarrow> ('s \<Rightarrow> (error + 'a) \<times> 's) \<Rightarrow> ('s, 'a) async" where
  "invoke cl op w = (case op (fst w) of (r, s') \<Rightarrow> (r, (s', snd w @ [cl])))"

definition resolve :: "'a \<Rightarrow> ('s, 'a) async" where
  "resolve a w = (Inr a, w)"

text \<open>\<^verbatim>\<open>await m\<close> followed by the rest of the function body: a rejection ends the body.\<close>

definition await :: "('s, 'a) async \<Rightarrow> ('a \<Rightarrow> ('s, 'b) async) \<Rightarrow> ('s, 'b) async" where
  "await m f w = (case m w of (Inl e, w') \<Rightarrow> (Inl e, w') | (Inr a, w') \<Rightarrow> f a w')"

text \<open>\<^verbatim>\<open>try { m } catch (error) { h }\<close>\<close>

definition tryCatch :: "('s, 'a) async \<Rightarrow> (error \<Rightarrow> ('s, 'a) async) \<Rightarrow> ('s, 'a) async" where
  "tryCatch m h w = (case m w of (Inl e, w') \<Rightarrow> h e w' | (Inr a, w') \<Rightarrow> (Inr a, w'))"

section \<open>The reconciler\<close>

subsection \<open>Environment variables of one application (lines 277 to 299)\<close>

fun deleteEnvironmentVariables ::
  "'s coolifyClient \<Rightarrow> string \<Rightarrow> coolifyEnvVarResponse list \<Rightarrow> ('s, unit) async" where
  "deleteEnvironmentVariables c appUuid [] = resolve ()"
| "deleteEnvironmentVariables c appUuid (envVar # rest) =
     await (invoke (DeleteEnvironmentVariable appUuid (ev_uuid envVar))
              (deleteEnvironmentVariable c appUuid (ev_uuid envVar)))
       (\<lambda>_. deleteEnvironmentVariables c appUuid rest)"

definition varsToDelete ::
  "coolifyEnvVar list \<Rightarrow> coolifyEnvVarResponse list \<Rightarrow> coolifyEnvVarResponse list" where
  "varsToDelete desiredEnvVars currentEnvVars =
     (let desiredKeys = set (map ev_key desiredEnvVars)
      in filter (\<lambda>e. ev_key e \<notin> desiredKeys) currentEnvVars)"

definition reconcileEnvironmentVariables ::
  "'s coolifyClient \<Rightarrow> string \<Rightarrow> coolifyEnvVar list \<Rightarrow> ('s, unit) async" where
  "reconcileEnvironmentVariables c appUuid desiredEnvVars =
     await (invoke (ListEnvironmentVariables appUuid) (listEnvironmentVariables c appUuid))
       (\<lambda>currentEnvVars.
          await (if varsToDelete desiredEnvVars currentEnvVars \<noteq> []
                 then deleteEnvironmentVariables c appUuid (varsToDelete desiredEnvVars currentEnvVars)
                 else resolve ())
            (\<lambda>_. if desiredEnvVars \<noteq> []
                  then invoke (UpdateEnvironmentVariables appUuid desiredEnvVars)
                         (updateEnvironmentVariables c appUuid desiredEnvVars)
                  else resolve ()))"

subsection \<open>Pruning (lines 304 to 334)\<close>

definition prunedResult :: "coolifyApplication \<Rightarrow> reconcileResourceResult" where
  "prunedResult app =
     \<lparr>res_name = app_name app, res_action = Pruned, res_uuid = Some (app_uuid app),
      res_deploymentUuid = None, res_error = None\<rparr>"

fun deleteApplications ::
  "'s coolifyClient \<Rightarrow> coolifyApplication list \<Rightarrow> reconcileResourceResult list
     \<Rightarrow> ('s, reconcileResourceResult list) async" where
  "deleteApplications c [] results = resolve results"
| "deleteApplications c (app # rest) results =
     await (invoke (DeleteApplication (app_uuid app)) (deleteApplication c (app_uuid app)))
       (\<lambda>_. deleteApplications c rest (results @ [prunedResult app]))"

definition appsToDelete ::
  "int \<Rightarrow> resource list \<Rightarrow> coolifyApplication list \<Rightarrow> coolifyApplication list" where
  "appsToDelete environmentId manifestResources allApps =
     (let envApps = filter (\<lambda>app. app_environment_id app = environmentId) allApps;
          manifestAppNames = set (map r_name manifestResources)
      in filter (\<lambda>app. app_name app \<notin> manifestAppNames) envApps)"

definition pruneResources ::
  "'s coolifyClient \<Rightarrow> int \<Rightarrow> resource list \<Rightarrow> ('s, reconcileResourceResult list) async" where
  "pruneResources c environmentId manifestResources =
     await (invoke ListApplications (listApplications c))
       (\<lambda>allApps.
          if appsToDelete environmentId manifestResources allApps \<noteq> []
          then deleteApplications c (appsToDelete environmentId manifestResources allApps) []
          else resolve [])"

subsection \<open>One resource (lines 339 to 418)\<close>

definition failedResult :: "string \<Rightarrow> error \<Rightarrow> reconcileResourceResult" where
  "failedResult name e =
     \<lparr>res_name = name, res_action = Failed, res_uuid = None, res_deploymentUuid = None,
      res_error = Some (errorMessage e)\<rparr>"

text \<open>The branch for an application that exists (lines 356 to 375).\<close>

definition updateExisting ::
  "'s coolifyClient \<Rightarrow> reconcilerOptions \<Rightarrow> resource \<Rightarrow> coolifyApplication
     \<Rightarrow> coolifyEnvVar list \<Rightarrow> ('s, reconcileResourceResult) async" where
  "updateExisting c opts resource existingApp envVars =
     await (invoke (UpdateApplication (app_uuid existingApp)
                      (BuildUpdateOptions resource (opt_dockerTag opts)))
              (updateApplication c (app_uuid existingApp)
                 (BuildUpdateOptions resource (opt_dockerTag opts))))
       (\<lambda>_. await (reconcileEnvironmentVariables c (app_uuid existingApp) envVars)
          (\<lambda>_. await (invoke (DeployApplication (app_uuid existingApp))
                        (deployApplication c (app_uuid existingApp)))
             (\<lambda>deploymentUuid.
                resolve \<lparr>res_name = r_name resource, res_action = Updated,
                         res_uuid = Some (app_uuid existingApp),
                         res_deploymentUuid = deploymentUuid, res_error = None\<rparr>)))"

text \<open>The branch for an application that does not exist (lines 377 to 407).\<close>

definition createNew ::
  "'s coolifyClient \<Rightarrow> reconcilerOptions \<Rightarrow> resource \<Rightarrow> string \<Rightarrow> string
     \<Rightarrow> coolifyEnvVar list \<Rightarrow> ('s, reconcileResourceResult) async" where
  "createNew c opts resource serverId environmentUuid envVars =
     (let createOptions =
            BuildCreateOptions resource (m_projectId (opt_manifest opts)) serverId
              (m_environmentName (opt_manifest opts)) environmentUuid
              (m_destinationId (opt_manifest opts)) (opt_dockerTag opts)
      in await (invoke (CreateDockerImageApplication createOptions)
                  (createDockerImageApplication c createOptions))
           (\<lambda>newAppUuid.
              await (if envVars \<noteq> []
                     then invoke (UpdateEnvironmentVariables newAppUuid envVars)
                            (updateEnvironmentVariables c newAppUuid envVars)
                     else resolve ())
                (\<lambda>_. await (invoke (DeployApplication newAppUuid) (deployApplication c newAppUuid))
                   (\<lambda>deploymentUuid.
                      resolve \<lparr>res_name = r_name resource, res_action = Created,
                               res_uuid = Some newAppUuid,
                               res_deploymentUuid = deploymentUuid, res_error = None\<rparr>))))"

text \<open>
  The application lookup stands before the \<^verbatim>\<open>try\<close>: when it throws,
  \<^verbatim>\<open>reconcileResource\<close> itself throws.  The \<^verbatim>\<open>try\<close> block is the choice between
  the two branches.
\<close>

definition createOrUpdate ::
  "'s coolifyClient \<Rightarrow> reconcilerOptions \<Rightarrow> resource \<Rightarrow> string \<Rightarrow> string
     \<Rightarrow> coolifyEnvVar list \<Rightarrow> coolifyApplication option \<Rightarrow> ('s, reconcileResourceResult) async" where
  "createOrUpdate c opts resource serverId environmentUuid envVars existingApp =
     (case existingApp of
        Some app \<Rightarrow> updateExisting c opts resource app envVars
      | None \<Rightarrow> createNew c opts resource serverId environmentUuid envVars)"

definition lookupApplication ::
  "'s coolifyClient \<Rightarrow> resource \<Rightarrow> int \<Rightarrow> ('s, coolifyApplication option) async" where
  "lookupApplication c resource environmentId =
     invoke (FindApplicationByName (r_name resource) environmentId)
       (findApplicationByName c (r_name resource) environmentId)"

definition reconcileResource ::
  "'s coolifyClient \<Rightarrow> reconcilerOptions \<Rightarrow> resource \<Rightarrow> string \<Rightarrow> string \<Rightarrow> int
     \<Rightarrow> coolifyEnvVar list \<Rightarrow> ('s, reconcileResourceResult) async" where
  "reconcileResource c opts resource serverId environmentUuid environmentId envVars =
     await (lookupApplication c resource environmentId)
       (\<lambda>existingApp.
          tryCatch (createOrUpdate c opts resource serverId environmentUuid envVars existingApp)
            (\<lambda>e. resolve (failedResult (r_name resource) e)))"

subsection \<open>The loop over the manifest's resources (lines 177 to 216)\<close>

definition secretsOf :: "reconcilerOptions \<Rightarrow> (string \<rightharpoonup> string)" where
  "secretsOf opts = (case opt_envSecrets opts of None \<Rightarrow> Map.empty | Some m \<Rightarrow> m)"

text \<open>
  The \<^verbatim>\<open>envSecrets\<close> object is given by the map of its own properties.  A name that
  is not among them is looked up in \<^verbatim>\<open>Object.prototype\<close>, whose properties are
  functions, or the prototype object itself for \<^verbatim>\<open>__proto__\<close>.
\<close>

definition objectPrototypeNames :: "string list" where
  "objectPrototypeNames =
     [''constructor'', ''__defineGetter__'', ''__defineSetter__'', ''hasOwnProperty'',
      ''__lookupGetter__'', ''__lookupSetter__'', ''isPrototypeOf'', ''propertyIsEnumerable'',
      ''toString'', ''valueOf'', ''__proto__'', ''toLocaleString'']"

definition splitIsNotAFunction :: error where
  "splitIsNotAFunction = Error ''content.split is not a function''"

text \<open>
  Lines 180 to 194.  An own entry is the file content; the empty string is falsy.  With
  no own entry the lookup gives \<^verbatim>\<open>undefined\<close>, which is falsy, unless the name is
  inherited: the inherited value is truthy and not a string, so \<^verbatim>\<open>parseEnvFile\<close>
  throws a \<^verbatim>\<open>TypeError\<close> at \<^verbatim>\<open>content.split\<close>.
\<close>

definition desiredEnvVars :: "(string \<rightharpoonup> string) \<Rightarrow> resource \<Rightarrow> error + coolifyEnvVar list" where
  "desiredEnvVars envSecrets resource =
     (case envSecrets (r_envSecretName resource) of
        None \<Rightarrow>
          if r_envSecretName resource \<in> set objectPrototypeNames then Inl splitIsNotAFunction
          else Inr []
      | Some envFileContent \<Rightarrow>
          if envFileContent \<noteq> [] then Inr (envVarsToCoolifyFormat (parseEnvFile envFileContent))
          else Inr [])"

text \<open>The local variables \<^verbatim>\<open>results\<close>, \<^verbatim>\<open>totalCreated\<close>, \<^verbatim>\<open>totalUpdated\<close>, \<^verbatim>\<open>totalFailed\<close>.\<close>

record progress =
  results :: "reconcileResourceResult list"
  created :: nat
  updated :: nat
  failed :: nat

definition noProgress :: progress where
  "noProgress = \<lparr>results = [], created = 0, updated = 0, failed = 0\<rparr>"

definition pushResult :: "reconcileResourceResult \<Rightarrow> progress \<Rightarrow> progress" where
  "pushResult result p =
     (let p' = p\<lparr>results := results p @ [result]\<rparr>
      in if res_action result = Created then p'\<lparr>created := created p + 1\<rparr>
         else if res_action result = Updated then p'\<lparr>updated := updated p + 1\<rparr>
         else if res_action result = Failed then p'\<lparr>failed := failed p + 1\<rparr>
         else p')"

definition pushFailure :: "string \<Rightarrow> error \<Rightarrow> progress \<Rightarrow> progress" where
  "pushFailure name e p =
     p\<lparr>results := results p @ [failedResult name e], failed := failed p + 1\<rparr>"

text \<open>
  The body of the loop: a \<^verbatim>\<open>try\<close> with a \<^verbatim>\<open>catch\<close> around everything, the parsing
  of the secret included, so it always completes.
\<close>

definition processResource ::
  "'s coolifyClient \<Rightarrow> reconcilerOptions \<Rightarrow> string \<Rightarrow> coolifyEnvironment \<Rightarrow> resource
     \<Rightarrow> progress \<Rightarrow> 's world \<Rightarrow> progress \<times> 's world" where
  "processResource c opts serverId environment resource p w =
     (case desiredEnvVars (secretsOf opts) resource of
        Inl e \<Rightarrow> (pushFailure (r_name resource) e p, w)
      | Inr envVars \<Rightarrow>
          (case reconcileResource c opts resource serverId (env_uuid environment)
                  (env_id environment) envVars w of
             (Inr result, w') \<Rightarrow> (pushResult result p, w')
           | (Inl e, w') \<Rightarrow> (pushFailure (r_name resource) e p, w')))"

fun processResources ::
  "'s coolifyClient \<Rightarrow> reconcilerOptions \<Rightarrow> string \<Rightarrow> coolifyEnvironment \<Rightarrow> resource list
     \<Rightarrow> progress \<Rightarrow> 's world \<Rightarrow> progress \<times> 's world" where
  "processResources c opts serverId environment [] p w = (p, w)"
| "processResources c opts serverId environment (resource # rest) p w =
     (let step = processResource c opts serverId environment resource p w
      in processResources c opts serverId environment rest (fst step) (snd step))"

subsection \<open>Waiting for the deployments (lines 224 to 258)\<close>

text \<open>
  \<^verbatim>\<open>results.filter((r) => r.deploymentUuid)\<close> keeps the entries whose deployment
  identifier is truthy: present and not the empty string.
\<close>

fun deploymentsOf :: "reconcileResourceResult list \<Rightarrow> (string \<times> string) list" where
  "deploymentsOf [] = []"
| "deploymentsOf (r # rs) =
     (case res_deploymentUuid r of
        None \<Rightarrow> deploymentsOf rs
      | Some u \<Rightarrow> if u \<noteq> [] then (res_name r, u) # deploymentsOf rs else deploymentsOf rs)"

text \<open>
  \<^verbatim>\<open>Promise.allSettled\<close> over one wait per deployment: every wait is issued, in the
  order of the list, and each one settles by itself.  The waits run concurrently; the
  model lets them act on the remote state in the order in which they were issued.
\<close>

fun waitForDeployments ::
  "'s coolifyClient \<Rightarrow> (string \<times> string) list \<Rightarrow> 's world \<Rightarrow> (error + unit) list \<times> 's world" where
  "waitForDeployments c [] w = ([], w)"
| "waitForDeployments c (d # ds) w =
     (let first = invoke (WaitForDeployment (snd d)) (waitForDeployment c (snd d)) w;
          others = waitForDeployments c ds (snd first)
      in (fst first # fst others, snd others))"

text \<open>
  \<^verbatim>\<open>results.find((r) => r.deploymentUuid === deployment.uuid)\<close> and the two
  assignments to the entry found: the first entry with that identifier is rewritten.
\<close>

fun markFailed ::
  "string \<Rightarrow> string option \<Rightarrow> reconcileResourceResult list \<Rightarrow> reconcileResourceResult list" where
  "markFailed u m [] = []"
| "markFailed u m (r # rs) =
     (if res_deploymentUuid r = Some u
      then r\<lparr>res_action := Failed, res_error := m\<rparr> # rs
      else r # markFailed u m rs)"

text \<open>
  The \<^verbatim>\<open>forEach\<close> over the settled waits, with the counter
  \<^verbatim>\<open>deploymentFailures\<close>.  For a rejected wait the reason's message is read first, for
  the log line (line 236): when that raises, the \<^verbatim>\<open>forEach\<close> and with it
  \<^verbatim>\<open>reconcile\<close> end with the \<^verbatim>\<open>TypeError\<close>.
\<close>

fun settleDeployments ::
  "((error + unit) \<times> (string \<times> string)) list \<Rightarrow> reconcileResourceResult list \<Rightarrow> nat
     \<Rightarrow> error + reconcileResourceResult list \<times> nat" where
  "settleDeployments [] rs deploymentFailures = Inr (rs, deploymentFailures)"
| "settleDeployments ((Inl reason, d) # rest) rs deploymentFailures =
     (case reasonMessage reason of
        Inl e \<Rightarrow> Inl e
      | Inr m \<Rightarrow> settleDeployments rest (markFailed (snd d) m rs) (deploymentFailures + 1))"
| "settleDeployments ((Inr _, d) # rest) rs deploymentFailures =
     settleDeployments rest rs deploymentFailures"

definition awaitDeployments ::
  "'s coolifyClient \<Rightarrow> reconcileResourceResult list \<Rightarrow> ('s, reconcileResourceResult list \<times> nat) async" where
  "awaitDeployments c rs w =
     (let deployments = deploymentsOf rs
      in if deployments \<noteq> []
         then (let settled = waitForDeployments c deployments w
               in (settleDeployments (zip (fst settled) deployments) rs 0, snd settled))
         else (Inr (rs, 0), w))"

subsection \<open>The whole run (lines 114 to 271)\<close>

text \<open>\<^verbatim>\<open>this.options.serverId ?? manifest.serverId\<close>\<close>

definition effectiveServerId :: "reconcilerOptions \<Rightarrow> string option" where
  "effectiveServerId opts =
     (case opt_serverId opts of Some s \<Rightarrow> Some s | None \<Rightarrow> m_serverId (opt_manifest opts))"

text \<open>Lines 176 to 271: the loop, the pruning, the waits and the result.\<close>

definition reconcileResources ::
  "'s coolifyClient \<Rightarrow> reconcilerOptions \<Rightarrow> string \<Rightarrow> coolifyEnvironment \<Rightarrow> ('s, reconcileResult) async" where
  "reconcileResources c opts serverId environment w =
     (let manifestResources = m_resources (opt_manifest opts);
          looped = processResources c opts serverId environment manifestResources noProgress w;
          p = fst looped
      in case pruneResources c (env_id environment) manifestResources (snd looped) of
           (Inl e, w') \<Rightarrow> (Inl e, w')
         | (Inr prunedResources, w') \<Rightarrow>
             (case awaitDeployments c (results p @ prunedResources) w' of
                (Inl e, w'') \<Rightarrow> (Inl e, w'')
              | (Inr (settled, deploymentFailures), w'') \<Rightarrow>
                  (let totalFailed = failed p + deploymentFailures
                   in (Inr \<lparr>success = (totalFailed = 0), resources = settled,
                            totalCreated = created p, totalUpdated = updated p,
                            totalFailed = totalFailed, totalPruned = length prunedResources\<rparr>,
                       w''))))"

definition environmentMissing :: "resource \<Rightarrow> reconcileResourceResult" where
  "environmentMissing r =
     \<lparr>res_name = r_name r, res_action = Failed, res_uuid = None, res_deploymentUuid = None,
      res_error = Some ''Target environment does not exist''\<rparr>"

definition reconcile :: "'s coolifyClient \<Rightarrow> reconcilerOptions \<Rightarrow> ('s, reconcileResult) async" where
  "reconcile c opts w =
     (let manifest = opt_manifest opts
      in case invoke (FindEnvironmentByName (m_projectId manifest) (m_environmentName manifest))
                (findEnvironmentByName c (m_projectId manifest) (m_environmentName manifest)) w of
           (Inl e, w') \<Rightarrow> (Inl e, w')
         | (Inr None, w') \<Rightarrow>
             (Inr \<lparr>success = False, resources = map environmentMissing (m_resources manifest),
                   totalCreated = 0, totalUpdated = 0,
                   totalFailed = length (m_resources manifest), totalPruned = 0\<rparr>, w')
         | (Inr (Some environment), w') \<Rightarrow>
             (case effectiveServerId opts of
                None \<Rightarrow>
                  (Inr \<lparr>success = False, resources = [], totalCreated = 0, totalUpdated = 0,
                        totalFailed = length (m_resources manifest), totalPruned = 0\<rparr>, w')
              | Some serverId \<Rightarrow>
                  if serverId = []
                  then (Inr \<lparr>success = False, resources = [], totalCreated = 0, totalUpdated = 0,
                              totalFailed = length (m_resources manifest), totalPruned = 0\<rparr>, w')
                  else reconcileResources c opts serverId environment w'))"

section \<open>A remote side that stores environment variables\<close>

text \<open>
  Modelled from the spec: the environment-variable operations of the Remote API Client
  (sections 4.3 and 6), whose implementation is not among the sources.  The remote side
  keeps, for every application it knows, the list of its entries.  Listing returns them;
  deleting removes the entries with the given identifier; the batch update creates or
  overwrites by key.  Every operation throws for an application that is not known, and
  deleting throws for an identifier that is not there.
\<close>

type_synonym envStore = "string \<rightharpoonup> coolifyEnvVarResponse list"

definition notFound :: error where
  "notFound = Error ''Not found''"

definition storeList :: "string \<Rightarrow> envStore \<Rightarrow> (error + coolifyEnvVarResponse list) \<times> envStore" where
  "storeList appUuid st =
     (case st appUuid of None \<Rightarrow> (Inl notFound, st) | Some entries \<Rightarrow> (Inr entries, st))"

definition storeDelete :: "string \<Rightarrow> string \<Rightarrow> envStore \<Rightarrow> (error + unit) \<times> envStore" where
  "storeDelete appUuid u st =
     (case st appUuid of
        None \<Rightarrow> (Inl notFound, st)
      | Some entries \<Rightarrow>
          if u \<in> set (map ev_uuid entries)
          then (Inr (), st(appUuid \<mapsto> filter (\<lambda>e. ev_uuid e \<noteq> u) entries))
          else (Inl notFound, st))"

definition overwrite :: "coolifyEnvVar \<Rightarrow> coolifyEnvVarResponse \<Rightarrow> coolifyEnvVarResponse" where
  "overwrite d e =
     (if ev_key e = ev_key d
      then e\<lparr>ev_value := ev_value d, is_preview := is_preview d, is_literal := is_literal d,
             is_multiline := is_multiline d, is_shown_once := is_shown_once d\<rparr>
      else e)"

definition upsert :: "string \<Rightarrow> coolifyEnvVarResponse list \<Rightarrow> coolifyEnvVar \<Rightarrow> coolifyEnvVarResponse list" where
  "upsert appUuid entries d =
     (if ev_key d \<in> set (map ev_key entries) then map (overwrite d) entries
      else entries @
             [\<lparr>ev_key = ev_key d, ev_value = ev_value d, is_preview = is_preview d,
               is_literal = is_literal d, is_multiline = is_multiline d,
               is_shown_once = is_shown_once d, ev_uuid = appUuid @ ''/'' @ ev_key d\<rparr>])"

definition storeUpdate :: "string \<Rightarrow> coolifyEnvVar list \<Rightarrow> envStore \<Rightarrow> (error + unit) \<times> envStore" where
  "storeUpdate appUuid desired st =
     (case st appUuid of
        None \<Rightarrow> (Inl notFound, st)
      | Some entries \<Rightarrow> (Inr (), st(appUuid \<mapsto> foldl (upsert appUuid) entries desired)))"

section \<open>The clients and manifests of the test suite\<close>

text \<open>
  The mocked client of \<^verbatim>\<open>reconciler.test.ts\<close> with the resolved values most tests give
  it: the environment exists, no application exists, nothing is listed.
\<close>

definition productionEnvironment :: coolifyEnvironment where
  "productionEnvironment = \<lparr>env_id = 1, env_uuid = ''env-uuid'', env_name = ''production''\<rparr>"

definition mockClient :: "'s coolifyClient" where
  "mockClient =
     \<lparr>findEnvironmentByName = (\<lambda>_ _ s. (Inr (Some productionEnvironment), s)),
      findApplicationByName = (\<lambda>_ _ s. (Inr None, s)),
      listApplications = (\<lambda>s. (Inr [], s)),
      createDockerImageApplication = (\<lambda>_ s. (Inr ''new-app-uuid'', s)),
      updateApplication = (\<lambda>_ _ s. (Inr (), s)),
      deleteApplication = (\<lambda>_ s. (Inr (), s)),
      listEnvironmentVariables = (\<lambda>_ s. (Inr [], s)),
      updateEnvironmentVariables = (\<lambda>_ _ s. (Inr (), s)),
      deleteEnvironmentVariable = (\<lambda>_ _ s. (Inr (), s)),
      deployApplication = (\<lambda>_ s. (Inr (Some ''deploy-uuid''), s)),
      waitForDeployment = (\<lambda>_ s. (Inr (), s))\<rparr>"

definition envStoreClient :: "envStore coolifyClient" where
  "envStoreClient =
     mockClient\<lparr>listEnvironmentVariables := storeList,
                updateEnvironmentVariables := storeUpdate,
                deleteEnvironmentVariable := storeDelete\<rparr>"

definition testApp :: resource where
  "testApp =
     \<lparr>r_name = ''test-app'', r_description = ''Test application'',
      r_dockerImageName = ''ghcr.io/owner/repo-app'', r_envSecretName = ''TEST_APP_ENV'',
      r_domains = ''app.example.com'', r_portsExposes = ''3000'',
      r_healthCheck = Some \<lparr>hc_path = ''/health'', hc_port = ''3000''\<rparr>\<rparr>"

definition app1 :: resource where
  "app1 =
     \<lparr>r_name = ''app-1'', r_description = ''First app'',
      r_dockerImageName = ''ghcr.io/owner/repo-app1'', r_envSecretName = ''APP1_ENV'',
      r_domains = ''app1.example.com'', r_portsExposes = ''3000'', r_healthCheck = None\<rparr>"

definition app2 :: resource where
  "app2 =
     \<lparr>r_name = ''app-2'', r_description = ''Second app'',
      r_dockerImageName = ''ghcr.io/owner/repo-app2'', r_envSecretName = ''APP2_ENV'',
      r_domains = ''app2.example.com'', r_portsExposes = ''4000'', r_healthCheck = None\<rparr>"

definition testManifest :: "resource list \<Rightarrow> manifest" where
  "testManifest rs =
     \<lparr>m_projectId = ''test-project-uuid'', m_destinationId = ''test-destination-uuid'',
      m_serverId = Some ''test-server-id'', m_environmentName = ''production'',
      m_envFileSecretName = ''PRODUCTION_ENV_FILE'', m_resources = rs\<rparr>"

definition testOptions :: "resource list \<Rightarrow> (string \<times> string) list \<Rightarrow> reconcilerOptions" where
  "testOptions rs secrets =
     \<lparr>opt_manifest = testManifest rs, opt_dockerTag = ''v1.0.0'',
      opt_envSecrets = Some (map_of secrets), opt_serverId = None\<rparr>"

definition start :: "unit world" where
  "start = ((), [])"

text \<open>\<^verbatim>\<open>mockResolvedValue(null)\<close> for the environment lookup.\<close>

definition noEnvironmentClient :: "unit coolifyClient" where
  "noEnvironmentClient = mockClient\<lparr>findEnvironmentByName := (\<lambda>_ _ s. (Inr None, s))\<rparr>"

text \<open>\<^verbatim>\<open>mockRejectedValue(new Error("API Error"))\<close> for one operation.\<close>

definition apiError :: error where
  "apiError = Error ''API Error''"



definition deploymentFailsClient :: "unit coolifyClient" where
  "deploymentFailsClient =
     mockClient\<lparr>waitForDeployment := (\<lambda>_ s. (Inl (Error ''Deployment failed''), s))\<rparr>"



text \<open>The entries of the test ``should prune environment variables that are not in the manifest''.\<close>

definition remoteEnvVars :: "coolifyEnvVarResponse list" where
  "remoteEnvVars =
     [\<lparr>ev_key = ''KEY1'', ev_value = ''val1'', is_preview = None, is_literal = None,
       is_multiline = None, is_shown_once = None, ev_uuid = ''uuid-1''\<rparr>,
      \<lparr>ev_key = ''KEY2'', ev_value = ''val2'', is_preview = None, is_literal = None,
       is_multiline = None, is_shown_once = None, ev_uuid = ''uuid-2''\<rparr>]"

definition existingApp :: coolifyApplication where
  "existingApp = \<lparr>app_uuid = ''existing-app-uuid'', app_name = ''test-app'', app_environment_id = 1\<rparr>"

definition existingClient :: "unit coolifyClient" where
  "existingClient =
     mockClient\<lparr>findApplicationByName := (\<lambda>_ _ s. (Inr (Some existingApp), s)),
                listEnvironmentVariables := (\<lambda>_ s. (Inr remoteEnvVars, s))\<rparr>"

definition remoteStore :: envStore where
  "remoteStore = [''existing-app-uuid'' \<mapsto> remoteEnvVars]"

text \<open>A manifest without resources, and options that resolve no server identifier.\<close>

definition noServerIdOptions :: "resource list \<Rightarrow> reconcilerOptions" where
  "noServerIdOptions rs =
     \<lparr>opt_manifest = (testManifest rs)\<lparr>m_serverId := None\<rparr>, opt_dockerTag = ''v1.0.0'',
      opt_envSecrets = None, opt_serverId = None\<rparr>"

text \<open>A deploy trigger that throws, and a wait that rejects for one deployment only.\<close>

definition deployFailsClient :: "unit coolifyClient" where
  "deployFailsClient = mockClient\<lparr>deployApplication := (\<lambda>_ s. (Inl apiError, s))\<rparr>"

definition deploymentFailed :: error where
  "deploymentFailed = Error ''Deployment failed''"

definition secondDeploymentFailsClient :: "unit coolifyClient" where
  "secondDeploymentFailsClient =
     mockClient\<lparr>waitForDeployment :=
                  (\<lambda>u s. (if u = ''deploy-2'' then Inl deploymentFailed else Inr (), s))\<rparr>"

definition deployedEntries :: "reconcileResourceResult list" where
  "deployedEntries =
     [\<lparr>res_name = ''app-1'', res_action = Created, res_uuid = Some ''uuid-1'',
       res_deploymentUuid = Some ''deploy-1'', res_error = None\<rparr>,
      \<lparr>res_name = ''app-2'', res_action = Updated, res_uuid = Some ''uuid-2'',
       res_deploymentUuid = Some ''deploy-2'', res_error = None\<rparr>,
      \<lparr>res_name = ''old-app'', res_action = Pruned, res_uuid = Some ''old-app-uuid'',
       res_deploymentUuid = None, res_error = None\<rparr>]"

text \<open>
  \<^verbatim>\<open>mockResolvedValueOnce().mockRejectedValueOnce(new Error("Deployment failed"))\<close>:
  the remote state counts the waits; the first wait resolves and every later one rejects.
  The deploy trigger keeps the mocked client's single identifier \<^verbatim>\<open>deploy-uuid\<close>.
\<close>

definition flakyWaitClient :: "nat coolifyClient" where
  "flakyWaitClient =
     mockClient\<lparr>waitForDeployment :=
                  (\<lambda>_ n. (if n = 0 then Inr () else Inl deploymentFailed, n + 1))\<rparr>"

text \<open>
  A wait that is rejected with \<^verbatim>\<open>undefined\<close>; an application lookup that throws a
  plain object \<^verbatim>\<open>{ message: "API Error" }\<close>, the shape of \<^verbatim>\<open>CoolifyApiError\<close>; a
  resource whose secret is named like an inherited property.
\<close>

definition undefinedRejectionClient :: "unit coolifyClient" where
  "undefinedRejectionClient = mockClient\<lparr>waitForDeployment := (\<lambda>_ s. (Inl Undefined, s))\<rparr>"

definition apiErrorObject :: error where
  "apiErrorObject = Value ''[object Object]'' (Some ''API Error'')"

definition objectThrowingClient :: "unit coolifyClient" where
  "objectThrowingClient = mockClient\<lparr>findApplicationByName := (\<lambda>_ _ s. (Inl apiErrorObject, s))\<rparr>"

text \<open>
  An application lookup that throws for \<^verbatim>\<open>app-1\<close> only, and an application that exists
  whose environment variables cannot be deleted.
\<close>

definition firstLookupFailsClient :: "unit coolifyClient" where
  "firstLookupFailsClient =
     mockClient\<lparr>findApplicationByName :=
                  (\<lambda>name _ s. (if name = ''app-1'' then Inl apiError else Inr None, s))\<rparr>"

definition variableDeleteFailsClient :: "unit coolifyClient" where
  "variableDeleteFailsClient =
     existingClient\<lparr>deleteEnvironmentVariable := (\<lambda>_ _ s. (Inl apiErrorObject, s))\<rparr>"



text \<open>Secret contents used as examples.\<close>

definition quotedPaddedContent :: string where
  "quotedPaddedContent = ''KEY='' @ [dquote] @ '' a '' @ [dquote]"

definition twoKeysContent :: string where
  "twoKeysContent = ''KEY1=value1'' @ [nl] @ ''KEY2=value2'' @ [nl]"

section \<open>The expected outcome of the deployment waits\<close>

text \<open>
  The entry the deployment-wait phase should leave for \<open>r\<close>, given the outcome of the
  wait for each deployment identifier: rewritten to \<^const>\<open>Failed\<close> with the message of
  the rejection's reason when the wait for its identifier was rejected, unchanged
  otherwise.  (A reason without a message, \<^verbatim>\<open>undefined\<close> and \<^verbatim>\<open>null\<close> included,
  gives no error text.)
\<close>

definition settledEntry ::
  "(string \<rightharpoonup> (error + unit)) \<Rightarrow> reconcileResourceResult \<Rightarrow> reconcileResourceResult" where
  "settledEntry outcome r =
     (case res_deploymentUuid r of
        None \<Rightarrow> r
      | Some u \<Rightarrow>
          (case outcome u of
             Some (Inl (Error m)) \<Rightarrow> r\<lparr>res_action := Failed, res_error := Some m\<rparr>
           | Some (Inl (Value s m)) \<Rightarrow> r\<lparr>res_action := Failed, res_error := m\<rparr>
           | Some (Inl _) \<Rightarrow> r\<lparr>res_action := Failed, res_error := None\<rparr>
           | _ \<Rightarrow> r))"

text \<open>Some wait was rejected with \<^verbatim>\<open>undefined\<close> or \<^verbatim>\<open>null\<close> as its reason.\<close>

definition nullishRejection :: "(error + unit) list \<Rightarrow> bool" where
  "nullishRejection outcomes \<longleftrightarrow> Inl Undefined \<in> set outcomes \<or> Inl Null \<in> set outcomes"

section \<open>The remote calls made for one resource\<close>

text \<open>
  Section 4.2, step 3 of the spec, read as a sequence of remote calls: the application
  lookup; then, for an application that exists, the update, the listing of its
  environment variables, one delete call for each listed entry whose key is not desired,
  the batch update when there are desired entries, the deploy trigger; for one that does
  not exist, the create call, the batch update when there are desired entries, the
  deploy trigger.  Each call runs on the remote state its predecessor left.  The
  functions below give the error of the first call that throws, \<^const>\<open>None\<close> when
  every call returns.  They use the client's operations only.
\<close>

fun deleteCallsThrow ::
  "'s coolifyClient \<Rightarrow> string \<Rightarrow> coolifyEnvVarResponse list \<Rightarrow> 's \<Rightarrow> error option \<times> 's" where
  "deleteCallsThrow c appUuid [] s = (None, s)"
| "deleteCallsThrow c appUuid (v # vs) s =
     (case deleteEnvironmentVariable c appUuid (ev_uuid v) s of
        (Inl e, s') \<Rightarrow> (Some e, s')
      | (Inr _, s') \<Rightarrow> deleteCallsThrow c appUuid vs s')"

definition pushCallThrows ::
  "'s coolifyClient \<Rightarrow> string \<Rightarrow> coolifyEnvVar list \<Rightarrow> 's \<Rightarrow> error option \<times> 's" where
  "pushCallThrows c appUuid desired s =
     (if desired = [] then (None, s)
      else (case updateEnvironmentVariables c appUuid desired s of
              (Inl e, s') \<Rightarrow> (Some e, s')
            | (Inr _, s') \<Rightarrow> (None, s')))"

definition deployCallThrows :: "'s coolifyClient \<Rightarrow> string \<Rightarrow> 's \<Rightarrow> error option" where
  "deployCallThrows c appUuid s =
     (case deployApplication c appUuid s of (Inl e, _) \<Rightarrow> Some e | (Inr _, _) \<Rightarrow> None)"

definition updateCallsThrow ::
  "'s coolifyClient \<Rightarrow> reconcilerOptions \<Rightarrow> resource \<Rightarrow> coolifyApplication
     \<Rightarrow> coolifyEnvVar list \<Rightarrow> 's \<Rightarrow> error option" where
  "updateCallsThrow c opts r app desired s =
     (case updateApplication c (app_uuid app) (BuildUpdateOptions r (opt_dockerTag opts)) s of
        (Inl e, _) \<Rightarrow> Some e
      | (Inr _, s1) \<Rightarrow>
          (case listEnvironmentVariables c (app_uuid app) s1 of
             (Inl e, _) \<Rightarrow> Some e
           | (Inr current, s2) \<Rightarrow>
               (case deleteCallsThrow c (app_uuid app)
                       (filter (\<lambda>v. ev_key v \<notin> ev_key ` set desired) current) s2 of
                  (Some e, _) \<Rightarrow> Some e
                | (None, s3) \<Rightarrow>
                    (case pushCallThrows c (app_uuid app) desired s3 of
                       (Some e, _) \<Rightarrow> Some e
                     | (None, s4) \<Rightarrow> deployCallThrows c (app_uuid app) s4))))"

definition createCallsThrow ::
  "'s coolifyClient \<Rightarrow> reconcilerOptions \<Rightarrow> resource \<Rightarrow> string \<Rightarrow> string
     \<Rightarrow> coolifyEnvVar list \<Rightarrow> 's \<Rightarrow> error option" where
  "createCallsThrow c opts r serverId environmentUuid desired s =
     (case createDockerImageApplication c
             (BuildCreateOptions r (m_projectId (opt_manifest opts)) serverId
                (m_environmentName (opt_manifest opts)) environmentUuid
                (m_destinationId (opt_manifest opts)) (opt_dockerTag opts)) s of
        (Inl e, _) \<Rightarrow> Some e
      | (Inr newAppUuid, s1) \<Rightarrow>
          (case pushCallThrows c newAppUuid desired s1 of
             (Some e, _) \<Rightarrow> Some e
           | (None, s2) \<Rightarrow> deployCallThrows c newAppUuid s2))"

text \<open>No remote call is made for a resource whose secret cannot be parsed.\<close>

definition resourceCallsThrow ::
  "'s coolifyClient \<Rightarrow> reconcilerOptions \<Rightarrow> string \<Rightarrow> coolifyEnvironment \<Rightarrow> resource
     \<Rightarrow> 's \<Rightarrow> error option" where
  "resourceCallsThrow c opts serverId environment r s =
     (case desiredEnvVars (secretsOf opts) r of
        Inl _ \<Rightarrow> None
      | Inr desired \<Rightarrow>
          (case findApplicationByName c (r_name r) (env_id environment) s of
             (Inl e, _) \<Rightarrow> Some e
           | (Inr (Some app), s0) \<Rightarrow> updateCallsThrow c opts r app desired s0
           | (Inr None, s0) \<Rightarrow>
               createCallsThrow c opts r serverId (env_uuid environment) desired s0))"

section \<open>The remote calls of the pruning pass\<close>



section \<open>Properties of the parser\<close>

lemma splitLines_one_line: "nl \<notin> set s \<Longrightarrow> splitLines s = [s]"
  by (induction s rule: splitLines.induct) auto

lemma isKeyChar_ordinary:
  "isKeyChar c \<Longrightarrow>
     c \<noteq> nl \<and> c \<noteq> cr \<and> c \<noteq> eqChar \<and> \<not> isWhiteSpace c \<and> c \<noteq> hashChar
     \<and> c \<noteq> dquote \<and> c \<noteq> squote"
  by (auto simp: isKeyChar_def nl_def cr_def eqChar_def isWhiteSpace_def hashChar_def
                 dquote_def squote_def Let_def)

lemma isKeyStart_isKeyChar: "isKeyStart c \<Longrightarrow> isKeyChar c"
  by (auto simp: isKeyChar_def isKeyStart_def Let_def)

lemma named_chars:
  "\<not> isKeyChar eqChar" "\<not> isWhiteSpace eqChar" "\<not> isWhiteSpace dquote" "\<not> isWhiteSpace squote"
  "eqChar \<noteq> nl" "eqChar \<noteq> cr" "dquote \<noteq> nl" "squote \<noteq> nl" "dquote \<noteq> cr" "squote \<noteq> cr"
  "dquote \<noteq> squote" "nl \<noteq> eqChar" "cr \<noteq> eqChar" "nl \<noteq> dquote" "nl \<noteq> squote"
  "cr \<noteq> dquote" "cr \<noteq> squote" "squote \<noteq> dquote"
  by (simp_all add: isKeyChar_def nl_def cr_def eqChar_def isWhiteSpace_def dquote_def squote_def)

lemma validKey_chars: "validKey k \<Longrightarrow> k \<noteq> [] \<and> isKeyStart (hd k) \<and> list_all isKeyChar k"
  by (cases k) (auto simp: validKey_def isKeyStart_isKeyChar)

lemma trim_unchanged:
  assumes "s \<noteq> []" "\<not> isWhiteSpace (hd s)" "\<not> isWhiteSpace (last s)"
  shows "trim s = s"
proof -
  from assms have d1: "dropWhile isWhiteSpace s = s" by (cases s) auto
  from assms(1) obtain ys y where "s = ys @ [y]" by (cases s rule: rev_cases) auto
  with assms(3) have d2: "dropWhile isWhiteSpace (rev s) = rev s" by simp
  show ?thesis by (simp add: trim_def d1 d2)
qed

lemma key_prefix:
  "list_all isKeyChar k \<Longrightarrow> takeWhile isKeyChar (k @ eqChar # v) = k"
  "list_all isKeyChar k \<Longrightarrow> dropWhile isKeyChar (k @ eqChar # v) = eqChar # v"
  by (induction k) (auto simp: named_chars)

lemma matchKeyValue_line:
  assumes "validKey k" "\<not> list_ex isLineTerminator v"
  shows "matchKeyValue (k @ eqChar # v) = Some (k, v)"
proof -
  from assms(1) obtain c cs where k: "k = c # cs" and c: "isKeyStart c"
    and cs: "list_all isKeyChar (c # cs)"
    by (cases k) (auto simp: validKey_def isKeyStart_isKeyChar)
  show ?thesis
    using assms(2) c key_prefix[OF cs, of v]
    by (simp add: matchKeyValue_def k del: takeWhile.simps dropWhile.simps)
qed

lemma trim_line:
  assumes "validKey k" "noTrailingSpace v"
  shows "trim (k @ eqChar # v) = k @ eqChar # v"
proof (rule trim_unchanged)
  show "k @ eqChar # v \<noteq> []" by simp
  from assms(1) show "\<not> isWhiteSpace (hd (k @ eqChar # v))"
    by (cases k) (auto simp: validKey_def dest: isKeyStart_isKeyChar isKeyChar_ordinary)
  from assms(2) show "\<not> isWhiteSpace (last (k @ eqChar # v))"
    by (cases v rule: rev_cases) (auto simp: noTrailingSpace_def named_chars)
qed

lemma line_not_comment: "validKey k \<Longrightarrow> \<not> startsWith (k @ eqChar # v) hashChar"
  by (cases k) (auto simp: validKey_def startsWith_def dest: isKeyStart_isKeyChar isKeyChar_ordinary)

lemma parseLine_line:
  assumes "validKey k" "\<not> list_ex isLineTerminator v" "noTrailingSpace v"
  shows "parseLine (k @ eqChar # v) result =
           (case unquote v of None \<Rightarrow> result | Some v' \<Rightarrow> assign k v' result)"
  using assms by (simp add: parseLine_def trim_line line_not_comment matchKeyValue_line)


lemma matchKeyValue_Some:
  assumes "matchKeyValue t = Some (k, v)"
  shows "validKey k \<and> \<not> list_ex isLineTerminator v"
proof -
  from assms have k: "k = takeWhile isKeyChar t" and v: "\<not> list_ex isLineTerminator v"
    and st: "k \<noteq> [] \<and> isKeyStart (hd k)"
    by (auto simp: matchKeyValue_def Let_def split: list.splits if_splits)
       (metis list.sel(1))
  have "list_all isKeyChar k" unfolding k list_all_iff by (auto dest: set_takeWhileD)
  with st have "validKey k" by (cases k) (auto simp: validKey_def)
  with v show ?thesis by simp
qed

lemma unquote_Some: "unquote v = Some v' \<Longrightarrow> set v' \<subseteq> set v"
  by (cases v) (auto simp: unquote_def split: if_splits dest!: in_set_butlastD)

lemma set_update_cases: "x \<in> set (AList.update k v al) \<Longrightarrow> x \<in> set al \<or> x = (k, v)"
  by (induction al) (auto split: if_splits)

lemma parseLine_wellFormed:
  assumes "list_all wellFormedEntry result" "distinct (map fst result)"
  shows "list_all wellFormedEntry (parseLine l result) \<and> distinct (map fst (parseLine l result))"
proof (cases "parseLine l result = result")
  case True
  with assms show ?thesis by simp
next
  case False
  then obtain k v v' where m: "matchKeyValue (trim l) = Some (k, v)" and u: "unquote v = Some v'"
    and r: "parseLine l result = AList.update k v' result" and k: "k \<noteq> protoKey"
    by (auto simp: parseLine_def assign_def Let_def split: if_splits option.splits)
  from matchKeyValue_Some[OF m] unquote_Some[OF u] k have "wellFormedEntry (k, v')"
    by (auto simp: wellFormedEntry_def list_ex_iff)
  with assms(1) have "list_all wellFormedEntry (AList.update k v' result)"
    unfolding list_all_iff by (auto dest: set_update_cases)
  with assms(2) r show ?thesis by (simp add: distinct_update)
qed

lemma parseLines_wellFormed:
  "list_all wellFormedEntry result \<Longrightarrow> distinct (map fst result) \<Longrightarrow>
   list_all wellFormedEntry (parseLines ls result) \<and> distinct (map fst (parseLines ls result))"
  by (induction ls arbitrary: result) (auto dest: parseLine_wellFormed)

lemma parseEnvFile_wellFormed:
  "list_all wellFormedEntry (parseEnvFile content) \<and> distinct (map fst (parseEnvFile content))"
  unfolding parseEnvFile_def by (rule parseLines_wellFormed) simp_all

lemma splitLines_line:
  "nl \<notin> set l \<Longrightarrow> cr \<notin> set l \<Longrightarrow> splitLines (l @ nl # rest) = l # splitLines rest"
proof (induction l)
  case Nil
  then show ?case by (cases rest) auto
next
  case (Cons c l)
  then show ?case by (cases "l @ nl # rest") auto
qed

lemma splitLines_joinLines:
  "ls \<noteq> [] \<Longrightarrow> \<forall>l \<in> set ls. nl \<notin> set l \<and> cr \<notin> set l \<Longrightarrow> splitLines (joinLines ls) = ls"
proof (induction ls rule: joinLines.induct)
  case 1
  then show ?case by simp
next
  case (2 l)
  then show ?case by (simp add: splitLines_one_line)
next
  case (3 l m ls)
  then show ?case by (simp add: splitLines_line)
qed

lemma toEnvLine_one_line:
  assumes "wellFormedEntry kv"
  shows "nl \<notin> set (toEnvLine kv) \<and> cr \<notin> set (toEnvLine kv)"
proof -
  from assms have "list_all isKeyChar (fst kv)" by (simp add: wellFormedEntry_def validKey_chars)
  then have "nl \<notin> set (fst kv) \<and> cr \<notin> set (fst kv)"
    by (auto simp: list_all_iff dest: isKeyChar_ordinary)
  moreover from assms have "nl \<notin> set (snd kv) \<and> cr \<notin> set (snd kv)"
    by (auto simp: wellFormedEntry_def list_ex_iff isLineTerminator_def)
  ultimately show ?thesis by (auto simp: toEnvLine_def named_chars)
qed

lemma unquote_plain: "dquote \<notin> set v \<Longrightarrow> squote \<notin> set v \<Longrightarrow> unquote v = Some v"
  by (cases v) (auto simp: unquote_def startsWith_def)

lemma update_fresh: "k \<notin> fst ` set al \<Longrightarrow> AList.update k v al = al @ [(k, v)]"
  by (induction al) auto

lemma parseLines_serialized:
  assumes "list_all wellFormedEntry m" "distinct (map fst m)"
    "list_all (\<lambda>kv. plainValue (snd kv) \<and> noTrailingSpace (snd kv)) m"
    "fst ` set acc \<inter> fst ` set m = {}"
  shows "parseLines (map toEnvLine m) acc = acc @ m"
  using assms
proof (induction m arbitrary: acc)
  case Nil
  then show ?case by simp
next
  case (Cons kv m)
  obtain k v where kv: "kv = (k, v)" by (cases kv)
  from Cons.prems kv have wf: "validKey k" "\<not> list_ex isLineTerminator v" "noTrailingSpace v"
    and pl: "dquote \<notin> set v" "squote \<notin> set v" and np: "k \<noteq> protoKey"
    by (auto simp: wellFormedEntry_def plainValue_def)
  from Cons.prems kv have fresh: "k \<notin> fst ` set acc" by auto
  have step: "parseLine (toEnvLine kv) acc = acc @ [(k, v)]"
    using wf pl fresh np
    by (simp add: kv toEnvLine_def parseLine_line unquote_plain update_fresh assign_def)
  have "parseLines (map toEnvLine m) (acc @ [(k, v)]) = (acc @ [(k, v)]) @ m"
    using Cons.prems kv by (intro Cons.IH) (auto simp: rev_image_eqI)
  with step show ?case by (simp add: kv)
qed




text \<open>
  Claim C8, as the spec states it: if the values of \<open>parseEnvFile content\<close> hold no quote
  character and no newline, then writing the mapping back as \<open>KEY=value\<close> lines and
  parsing again gives the same mapping.  This fails: a value that was quoted may end in
  white space, and the second parse trims it off.
\<close>

theorem reparse_loses_trailing_space:
  "parseEnvFile quotedPaddedContent = [(''KEY'', '' a '')]
   \<and> plainValues (parseEnvFile quotedPaddedContent)
   \<and> parseEnvFile (toEnvLines (parseEnvFile quotedPaddedContent)) = [(''KEY'', '' a'')]"
  by code_simp

text \<open>
  Claim C8, amended: if the values of \<open>parseEnvFile content\<close> hold no quote character
  and no newline and do not end in white space, then writing the mapping back as
  \<open>KEY=value\<close> lines and parsing again gives the same mapping.
\<close>

theorem reparse_is_identity:
  assumes "plainValues (parseEnvFile content)" "noTrailingSpaces (parseEnvFile content)"
  shows "parseEnvFile (toEnvLines (parseEnvFile content)) = parseEnvFile content"
proof (cases "parseEnvFile content = []")
  case True
  then show ?thesis by (simp add: toEnvLines_def parseEnvFile_def parseLine_def trim_def)
next
  case False
  let ?m = "parseEnvFile content"
  have wf: "list_all wellFormedEntry ?m" "distinct (map fst ?m)"
    using parseEnvFile_wellFormed by auto
  have "\<forall>l \<in> set (map toEnvLine ?m). nl \<notin> set l \<and> cr \<notin> set l"
    using wf(1) by (auto simp: list_all_iff dest: toEnvLine_one_line)
  with False have "splitLines (toEnvLines ?m) = map toEnvLine ?m"
    unfolding toEnvLines_def by (intro splitLines_joinLines) auto
  moreover have "parseLines (map toEnvLine ?m) [] = [] @ ?m"
    using wf assms
    by (intro parseLines_serialized) (auto simp: plainValues_def noTrailingSpaces_def list_all_iff)
  ultimately show ?thesis by (simp add: parseEnvFile_def)
qed

theorem reparse_is_identity_witness:
  "plainValues (parseEnvFile twoKeysContent) \<and> noTrailingSpaces (parseEnvFile twoKeysContent)
   \<and> parseEnvFile twoKeysContent = [(''KEY1'', ''value1''), (''KEY2'', ''value2'')]
   \<and> parseEnvFile (toEnvLines (parseEnvFile twoKeysContent)) = parseEnvFile twoKeysContent"
proof -
  have p: "plainValues (parseEnvFile twoKeysContent)" by code_simp
  have t: "noTrailingSpaces (parseEnvFile twoKeysContent)" by code_simp
  have v: "parseEnvFile twoKeysContent = [(''KEY1'', ''value1''), (''KEY2'', ''value2'')]"
    by code_simp
  from p t v reparse_is_identity[OF p t] show ?thesis by simp
qed

section \<open>Properties of the reconciler\<close>

subsection \<open>Awaiting, invoking, catching\<close>

lemma await_eq_Inr:
  "await m f w = (Inr b, w') \<longleftrightarrow> (\<exists>a w1. m w = (Inr a, w1) \<and> f a w1 = (Inr b, w'))"
  by (auto simp: await_def split: prod.splits sum.splits)

lemma invoke_eq:
  "invoke cl op w = (r, w') \<longleftrightarrow> (\<exists>s'. op (fst w) = (r, s') \<and> w' = (s', snd w @ [cl]))"
  by (auto simp: invoke_def split: prod.splits)

lemma resolve_eq: "resolve a w = (r, w') \<longleftrightarrow> r = Inr a \<and> w' = w"
  by (auto simp: resolve_def)

subsection \<open>The two early exits and the overall flag\<close>

lemma reconcileResources_success:
  "reconcileResources c opts sid env w = (Inr res, w') \<Longrightarrow> success res = (totalFailed res = 0)"
  by (auto simp: reconcileResources_def Let_def split: prod.splits sum.splits)



text \<open>
  Claim C1, as the spec states it: every result that reconcile returns has
  \<open>success = true\<close> if and only if \<open>totalFailed = 0\<close>, also in the two
  precondition-failure branches and on an empty resource list.  This fails: with an
  empty resource list both branches return \<open>success = false\<close> next to
  \<open>totalFailed = 0\<close>.
\<close>

theorem early_exit_on_empty_manifest:
  "fst (reconcile noEnvironmentClient (testOptions [] []) start) =
     Inr \<lparr>success = False, resources = [], totalCreated = 0, totalUpdated = 0,
          totalFailed = 0, totalPruned = 0\<rparr>
   \<and> fst (reconcile mockClient (noServerIdOptions []) start) =
     Inr \<lparr>success = False, resources = [], totalCreated = 0, totalUpdated = 0,
          totalFailed = 0, totalPruned = 0\<rparr>"
  by code_simp

text \<open>
  Claim C1, amended: every result that reconcile returns has \<open>totalFailed = 0\<close> whenever
  \<open>success = true\<close>; and \<open>success = true\<close> if and only if \<open>totalFailed = 0\<close> whenever
  the manifest lists at least one resource, or the environment exists and a server id is
  resolved (so the run gets past both precondition checks), also after deployment-wait
  downgrades.  In the two precondition-failure branches (target environment absent; no
  server id resolvable) \<open>success\<close> is false and \<open>totalFailed\<close> is the resource count.
\<close>

theorem success_iff_no_failure:
  assumes "fst (reconcile c opts w) = Inr res"
  shows "(success res \<longrightarrow> totalFailed res = 0)
         \<and> (m_resources (opt_manifest opts) \<noteq> [] \<longrightarrow> success res = (totalFailed res = 0))
         \<and> ((\<exists>environment. fst (findEnvironmentByName c (m_projectId (opt_manifest opts))
                                   (m_environmentName (opt_manifest opts)) (fst w))
                              = Inr (Some environment))
              \<and> (\<exists>serverId. effectiveServerId opts = Some serverId \<and> serverId \<noteq> [])
            \<longrightarrow> success res = (totalFailed res = 0))
         \<and> (fst (findEnvironmentByName c (m_projectId (opt_manifest opts))
                    (m_environmentName (opt_manifest opts)) (fst w)) = Inr None
            \<longrightarrow> \<not> success res \<and> totalFailed res = length (m_resources (opt_manifest opts)))
         \<and> ((\<exists>environment. fst (findEnvironmentByName c (m_projectId (opt_manifest opts))
                                   (m_environmentName (opt_manifest opts)) (fst w))
                              = Inr (Some environment))
              \<and> (effectiveServerId opts = None \<or> effectiveServerId opts = Some [])
            \<longrightarrow> \<not> success res \<and> totalFailed res = length (m_resources (opt_manifest opts)))"
proof -
  from assms obtain w' where "reconcile c opts w = (Inr res, w')"
    by (cases "reconcile c opts w") auto
  then show ?thesis
    by (auto simp: reconcile_def invoke_def Let_def
             split: prod.splits sum.splits option.splits if_splits
             dest: reconcileResources_success)
qed

theorem success_iff_no_failure_witness:
  "fst (reconcile mockClient (testOptions [testApp] []) start) =
     Inr \<lparr>success = True,
          resources = [\<lparr>res_name = ''test-app'', res_action = Created,
                        res_uuid = Some ''new-app-uuid'',
                        res_deploymentUuid = Some ''deploy-uuid'', res_error = None\<rparr>],
          totalCreated = 1, totalUpdated = 0, totalFailed = 0, totalPruned = 0\<rparr>
   \<and> m_resources (opt_manifest (testOptions [testApp] [])) \<noteq> []
   \<and> fst (findEnvironmentByName mockClient ''test-project-uuid'' ''production'' ())
       = Inr (Some productionEnvironment)
   \<and> effectiveServerId (testOptions [testApp] []) = Some ''test-server-id''
   \<and> fst (findEnvironmentByName noEnvironmentClient ''test-project-uuid'' ''production'' ())
       = Inr None
   \<and> fst (reconcile noEnvironmentClient (testOptions [testApp] []) start) =
       Inr \<lparr>success = False,
            resources = [\<lparr>res_name = ''test-app'', res_action = Failed, res_uuid = None,
                          res_deploymentUuid = None,
                          res_error = Some ''Target environment does not exist''\<rparr>],
            totalCreated = 0, totalUpdated = 0, totalFailed = 1, totalPruned = 0\<rparr>
   \<and> effectiveServerId (noServerIdOptions [testApp]) = None
   \<and> fst (reconcile mockClient (noServerIdOptions [testApp]) start) =
       Inr \<lparr>success = False, resources = [], totalCreated = 0, totalUpdated = 0,
            totalFailed = 1, totalPruned = 0\<rparr>"
proof -
  let ?created = "\<lparr>success = True,
          resources = [\<lparr>res_name = ''test-app'', res_action = Created,
                        res_uuid = Some ''new-app-uuid'',
                        res_deploymentUuid = Some ''deploy-uuid'', res_error = None\<rparr>],
          totalCreated = 1, totalUpdated = 0, totalFailed = 0, totalPruned = 0\<rparr>"
  let ?missing = "\<lparr>success = False,
            resources = [\<lparr>res_name = ''test-app'', res_action = Failed, res_uuid = None,
                          res_deploymentUuid = None,
                          res_error = Some ''Target environment does not exist''\<rparr>],
            totalCreated = 0, totalUpdated = 0, totalFailed = 1, totalPruned = 0\<rparr>"
  let ?noServer = "\<lparr>success = False, resources = [], totalCreated = 0, totalUpdated = 0,
            totalFailed = 1, totalPruned = 0\<rparr>"
  have h1: "fst (reconcile mockClient (testOptions [testApp] []) start) = Inr ?created"
    by code_simp
  have h2: "fst (reconcile noEnvironmentClient (testOptions [testApp] []) start) = Inr ?missing"
    by code_simp
  have h3: "fst (reconcile mockClient (noServerIdOptions [testApp]) start) = Inr ?noServer"
    by code_simp
  have rest: "m_resources (opt_manifest (testOptions [testApp] [])) \<noteq> []
   \<and> fst (findEnvironmentByName mockClient ''test-project-uuid'' ''production'' ())
       = Inr (Some productionEnvironment)
   \<and> effectiveServerId (testOptions [testApp] []) = Some ''test-server-id''
   \<and> fst (findEnvironmentByName noEnvironmentClient ''test-project-uuid'' ''production'' ())
       = Inr None
   \<and> effectiveServerId (noServerIdOptions [testApp]) = None"
    by (simp add: testOptions_def testManifest_def mockClient_def effectiveServerId_def
                  noEnvironmentClient_def noServerIdOptions_def)
  from success_iff_no_failure[OF h1] success_iff_no_failure[OF h2]
       success_iff_no_failure[OF h3] h1 h2 h3 rest
  show ?thesis by simp
qed

subsection \<open>Settling the deployment waits\<close>

lemma waitForDeployments_calls:
  "snd (snd (waitForDeployments c ds w)) = snd w @ map (\<lambda>d. WaitForDeployment (snd d)) ds"
  by (induction ds arbitrary: w) (auto simp: Let_def invoke_def split: prod.splits)

lemma waitForDeployments_length: "length (fst (waitForDeployments c ds w)) = length ds"
  by (induction ds arbitrary: w) (auto simp: Let_def)


lemma reasonMessage_Inr:
  "reason \<noteq> Undefined \<Longrightarrow> reason \<noteq> Null \<Longrightarrow> \<exists>m. reasonMessage reason = Inr m"
  by (cases reason) auto


lemma settleDeployments_Inr:
  "\<not> nullishRejection (map fst ps) \<Longrightarrow>
     \<exists>rs'. settleDeployments ps rs n = Inr (rs', n + length (filter isl (map fst ps)))"
proof (induction ps rs n rule: settleDeployments.induct)
  case (1 rs n)
  then show ?case by simp
next
  case (2 reason d rest rs n)
  from "2.prems" have "reason \<noteq> Undefined" "reason \<noteq> Null"
    by (auto simp: nullishRejection_def)
  then obtain m where m: "reasonMessage reason = Inr m" using reasonMessage_Inr by blast
  from "2.prems" have "\<not> nullishRejection (map fst rest)" by (auto simp: nullishRejection_def)
  from "2.IH"[OF m this] m show ?case by auto
next
  case (3 u d rest rs n)
  from "3.prems" have "\<not> nullishRejection (map fst rest)" by (auto simp: nullishRejection_def)
  from "3.IH"[OF this] show ?case by auto
qed

lemma deploymentsOf_ids:
  "u \<in> snd ` set (deploymentsOf rs) \<longleftrightarrow> u \<noteq> [] \<and> (\<exists>r \<in> set rs. res_deploymentUuid r = Some u)"
  by (induction rs) (auto split: option.splits)

lemma deploymentsOf_nonempty: "\<forall>d \<in> set (deploymentsOf rs). snd d \<noteq> []"
  by (induction rs) (auto split: option.splits)


lemma markFailed_deploymentsOf: "deploymentsOf (markFailed u m rs) = deploymentsOf rs"
  by (induction rs) (auto split: option.splits)


lemma settledEntry_empty: "settledEntry Map.empty r = r"
  by (simp add: settledEntry_def split: option.splits)

lemma map_settledEntry_empty: "map (settledEntry Map.empty) rs = rs"
  by (induction rs) (simp_all add: settledEntry_empty)

lemma settledEntry_miss:
  "(\<And>u. res_deploymentUuid r = Some u \<Longrightarrow> outcome u = None) \<Longrightarrow> settledEntry outcome r = r"
  by (simp add: settledEntry_def split: option.splits)

lemma settledEntry_hit:
  "res_deploymentUuid r = Some u \<Longrightarrow> outcome u = Some (Inl reason) \<Longrightarrow>
   reasonMessage reason = Inr m \<Longrightarrow>
     settledEntry outcome r = r\<lparr>res_action := Failed, res_error := m\<rparr>"
  by (cases reason) (simp_all add: settledEntry_def)

lemma markFailed_distinct:
  assumes "distinct (map snd (deploymentsOf rs))" "u \<noteq> []" "reasonMessage reason = Inr m"
  shows "markFailed u m rs =
           map (settledEntry (\<lambda>v. if v = u then Some (Inl reason) else None)) rs"
  using assms(1)
proof (induction rs)
  case Nil
  then show ?case by simp
next
  case (Cons r rs)
  show ?case
  proof (cases "res_deploymentUuid r = Some u")
    case True
    with Cons.prems have "u \<notin> snd ` set (deploymentsOf rs)" using assms(2) by auto
    with assms(2) have none: "\<forall>x \<in> set rs. res_deploymentUuid x \<noteq> Some u"
      by (auto simp: deploymentsOf_ids)
    then have "map (settledEntry (\<lambda>v. if v = u then Some (Inl reason) else None)) rs = rs"
      by (intro map_idI settledEntry_miss) auto
    moreover from True assms(3)
    have "settledEntry (\<lambda>v. if v = u then Some (Inl reason) else None) r =
            r\<lparr>res_action := Failed, res_error := m\<rparr>"
      by (intro settledEntry_hit) auto
    ultimately show ?thesis using True by simp
  next
    case False
    from Cons.prems have "distinct (map snd (deploymentsOf rs))"
      by (auto split: option.splits if_splits)
    with Cons.IH
    have "markFailed u m rs =
            map (settledEntry (\<lambda>v. if v = u then Some (Inl reason) else None)) rs"
      by simp
    moreover from False
    have "settledEntry (\<lambda>v. if v = u then Some (Inl reason) else None) r = r"
      by (intro settledEntry_miss) auto
    ultimately show ?thesis using False by simp
  qed
qed

lemma settledEntry_after:
  assumes "others u = None"
  shows "settledEntry others (settledEntry (\<lambda>v. if v = u then Some o1 else None) r) =
           settledEntry (\<lambda>v. if v = u then Some o1 else others v) r"
proof (cases "res_deploymentUuid r")
  case None
  then show ?thesis by (simp add: settledEntry_def)
next
  case (Some v)
  show ?thesis
  proof (cases "v = u")
    case True
    with Some assms show ?thesis
      by (simp add: settledEntry_def split: sum.splits error.splits)
  next
    case False
    with Some have "settledEntry (\<lambda>v. if v = u then Some o1 else None) r = r"
      by (intro settledEntry_miss) auto
    with Some False show ?thesis by (simp add: settledEntry_def)
  qed
qed

lemma settleDeployments_distinct:
  assumes "distinct (map snd (deploymentsOf rs))" "distinct (map (snd \<circ> snd) ps)"
    "\<forall>p \<in> set ps. snd (snd p) \<noteq> []" "\<not> nullishRejection (map fst ps)"
  shows "settleDeployments ps rs n =
           Inr (map (settledEntry (map_of (map (\<lambda>p. (snd (snd p), fst p)) ps))) rs,
                n + length (filter isl (map fst ps)))"
  using assms
proof (induction ps rs n rule: settleDeployments.induct)
  case (1 rs n)
  then show ?case by (simp add: map_settledEntry_empty)
next
  case (2 reason d rest rs n)
  let ?rest = "map_of (map (\<lambda>p. (snd (snd p), fst p)) rest)"
  from "2.prems" have fresh: "?rest (snd d) = None"
    by (force simp: map_of_eq_None_iff image_iff)
  from "2.prems" have "reason \<noteq> Undefined" "reason \<noteq> Null"
    by (auto simp: nullishRejection_def)
  then obtain m where m: "reasonMessage reason = Inr m" using reasonMessage_Inr by blast
  from "2.prems" have nn: "\<not> nullishRejection (map fst rest)"
    by (auto simp: nullishRejection_def)
  have a: "settleDeployments rest (markFailed (snd d) m rs) (n + 1) =
             Inr (map (settledEntry ?rest) (markFailed (snd d) m rs),
                  n + 1 + length (filter isl (map fst rest)))"
    using "2.prems" nn by (intro "2.IH"[OF m]) (auto simp: markFailed_deploymentsOf)
  have b: "markFailed (snd d) m rs =
             map (settledEntry (\<lambda>v. if v = snd d then Some (Inl reason) else None)) rs"
    using "2.prems" m by (intro markFailed_distinct) auto
  have c: "map (settledEntry ?rest)
             (map (settledEntry (\<lambda>v. if v = snd d then Some (Inl reason) else None)) rs) =
           map (settledEntry (\<lambda>v. if v = snd d then Some (Inl reason) else ?rest v)) rs"
    using fresh by (simp add: settledEntry_after)
  have "settleDeployments ((Inl reason, d) # rest) rs n =
          Inr (map (settledEntry (\<lambda>v. if v = snd d then Some (Inl reason) else ?rest v)) rs,
               n + 1 + length (filter isl (map fst rest)))"
    by (simp only: settleDeployments.simps m sum.case a) (simp only: b c)
  then show ?case by (simp add: fun_upd_def)
next
  case (3 u d rest rs n)
  let ?rest = "map_of (map (\<lambda>p. (snd (snd p), fst p)) rest)"
  from "3.prems" have fresh: "?rest (snd d) = None"
    by (force simp: map_of_eq_None_iff image_iff)
  from "3.prems" have nn: "\<not> nullishRejection (map fst rest)"
    by (auto simp: nullishRejection_def)
  have "settleDeployments rest rs n =
          Inr (map (settledEntry ?rest) rs, n + length (filter isl (map fst rest)))"
    using "3.prems" nn by (intro "3.IH") auto
  moreover have "settledEntry (\<lambda>v. if v = snd d then Some (Inr x) else ?rest v) r =
                   settledEntry ?rest r" for r x
    using fresh by (auto simp: settledEntry_def split: option.splits sum.splits)
  ultimately show ?case by (simp add: fun_upd_def)
qed

lemma zip_outcomes:
  "length os = length ds \<Longrightarrow>
     map (\<lambda>p. (snd (snd p), fst p)) (zip os ds) = zip (map snd ds) os"
  by (induction os ds rule: list_induct2) auto

lemma zip_identifiers: "length os = length ds \<Longrightarrow> map (snd \<circ> snd) (zip os ds) = map snd ds"
  by (induction os ds rule: list_induct2) auto

lemma zip_first: "length os = length ds \<Longrightarrow> map fst (zip os ds) = os"
  by simp

lemma awaitDeployments_calls:
  "snd (snd (awaitDeployments c rs w)) =
     snd w @ map (\<lambda>d. WaitForDeployment (snd d)) (deploymentsOf rs)"
  by (simp add: awaitDeployments_def Let_def waitForDeployments_calls)

lemma awaitDeployments_Inr:
  assumes "\<not> nullishRejection (fst (waitForDeployments c (deploymentsOf rs) w))"
  shows "\<exists>rs'. fst (awaitDeployments c rs w) =
           Inr (rs', length (filter isl (fst (waitForDeployments c (deploymentsOf rs) w))))"
proof (cases "deploymentsOf rs = []")
  case True
  then show ?thesis by (simp add: awaitDeployments_def)
next
  case False
  let ?ds = "deploymentsOf rs"
  let ?os = "fst (waitForDeployments c ?ds w)"
  have first: "map fst (zip ?os ?ds) = ?os"
    by (rule zip_first) (rule waitForDeployments_length)
  have "\<not> nullishRejection (map fst (zip ?os ?ds))" unfolding first by (rule assms)
  from settleDeployments_Inr[OF this, of rs 0] obtain rs' where
    "settleDeployments (zip ?os ?ds) rs 0 = Inr (rs', length (filter isl ?os))"
    by (auto simp: first)
  with False have "fst (awaitDeployments c rs w) = Inr (rs', length (filter isl ?os))"
    by (simp add: awaitDeployments_def Let_def)
  then show ?thesis by blast
qed

lemma awaitDeployments_distinct:
  assumes "distinct (map snd (deploymentsOf rs))"
    "\<not> nullishRejection (fst (waitForDeployments c (deploymentsOf rs) w))"
  shows "fst (awaitDeployments c rs w) =
           Inr (map (settledEntry (map_of (zip (map snd (deploymentsOf rs))
                                          (fst (waitForDeployments c (deploymentsOf rs) w))))) rs,
                length (filter isl (fst (waitForDeployments c (deploymentsOf rs) w))))"
proof (cases "deploymentsOf rs = []")
  case True
  then show ?thesis by (simp add: awaitDeployments_def map_settledEntry_empty)
next
  case False
  let ?ds = "deploymentsOf rs"
  let ?os = "fst (waitForDeployments c ?ds w)"
  have len: "length ?os = length ?ds" by (rule waitForDeployments_length)
  have m: "map (\<lambda>p. (snd (snd p), fst p)) (zip ?os ?ds) = zip (map snd ?ds) ?os"
    using len by (rule zip_outcomes)
  have ids: "map (snd \<circ> snd) (zip ?os ?ds) = map snd ?ds"
    using len by (rule zip_identifiers)
  have first: "map fst (zip ?os ?ds) = ?os" using len by (rule zip_first)
  have "settleDeployments (zip ?os ?ds) rs 0 =
          Inr (map (settledEntry (map_of (map (\<lambda>p. (snd (snd p), fst p)) (zip ?os ?ds)))) rs,
               0 + length (filter isl (map fst (zip ?os ?ds))))"
    using assms deploymentsOf_nonempty[of rs]
    by (intro settleDeployments_distinct) (auto simp: ids first dest!: set_zip_rightD)
  with False show ?thesis by (simp add: awaitDeployments_def Let_def m first)
qed


lemma deploymentsOf_none:
  "\<forall>y \<in> set ys. res_deploymentUuid y = None \<Longrightarrow> deploymentsOf ys = []"
  by (induction ys) auto




subsection \<open>The parts of a run that gets past the precondition checks\<close>

lemma reconcileResources_Inr:
  assumes "fst (reconcileResources c opts sid env w) = Inr res"
  shows "\<exists>pruned w2 settled failures.
           pruneResources c (env_id env) (m_resources (opt_manifest opts))
             (snd (processResources c opts sid env (m_resources (opt_manifest opts))
                     noProgress w)) = (Inr pruned, w2)
           \<and> fst (awaitDeployments c
                 (results (fst (processResources c opts sid env (m_resources (opt_manifest opts))
                     noProgress w)) @ pruned) w2) = Inr (settled, failures)
           \<and> totalPruned res = length pruned
           \<and> resources res = settled
           \<and> totalFailed res =
               failed (fst (processResources c opts sid env (m_resources (opt_manifest opts))
                     noProgress w)) + failures"
  using assms
  by (auto simp: reconcileResources_def Let_def split: prod.splits sum.splits)


subsection \<open>Pruning\<close>








subsection \<open>Which errors leave the run\<close>









subsection \<open>A remote call that throws while one resource is created or updated\<close>

lemma deleteEnvironmentVariables_if:
  "(if vs \<noteq> [] then deleteEnvironmentVariables c a vs else resolve ())
     = deleteEnvironmentVariables c a vs"
  by (cases vs) simp_all

lemma deleteEnvironmentVariables_thrown:
  "deleteEnvironmentVariables c a vs w = (r, w') \<Longrightarrow>
     deleteCallsThrow c a vs (fst w) = ((case r of Inl e \<Rightarrow> Some e | Inr _ \<Rightarrow> None), fst w')"
proof (induction vs arbitrary: w)
  case Nil
  then show ?case by (auto simp: resolve_def)
next
  case (Cons v vs)
  then show ?case
    by (auto simp: await_def invoke_def split: prod.splits sum.splits)
qed

lemma push_thrown:
  "(if desired \<noteq> [] then invoke (UpdateEnvironmentVariables a desired)
                            (updateEnvironmentVariables c a desired)
    else resolve ()) w = (r, w') \<Longrightarrow>
   pushCallThrows c a desired (fst w) = ((case r of Inl e \<Rightarrow> Some e | Inr _ \<Rightarrow> None), fst w')"
  by (auto simp: pushCallThrows_def invoke_def resolve_def split: prod.splits sum.splits if_splits)

lemma deploy_thrown:
  "invoke (DeployApplication a) (deployApplication c a) w = (r, w') \<Longrightarrow>
   deployCallThrows c a (fst w) = (case r of Inl e \<Rightarrow> Some e | Inr _ \<Rightarrow> None)"
  by (auto simp: deployCallThrows_def invoke_def split: prod.splits sum.splits)

lemma updateExisting_throws:
  assumes "updateCallsThrow c opts r app desired (fst w) = Some e"
  shows "fst (updateExisting c opts r app desired w) = Inl e"
proof -
  let ?a = "app_uuid app"
  let ?uo = "BuildUpdateOptions r (opt_dockerTag opts)"
  obtain r1 s1 where u: "updateApplication c ?a ?uo (fst w) = (r1, s1)" by (cases "updateApplication c ?a ?uo (fst w)")
  show ?thesis
  proof (cases r1)
    case (Inl e1)
    with assms u show ?thesis
      by (simp add: updateCallsThrow_def updateExisting_def await_def invoke_def split: prod.splits)
  next
    case (Inr x1)
    let ?w1 = "(s1, snd w @ [UpdateApplication ?a ?uo])"
    obtain r2 s2 where l: "listEnvironmentVariables c ?a s1 = (r2, s2)" by (cases "listEnvironmentVariables c ?a s1")
    show ?thesis
    proof (cases r2)
      case (Inl e2)
      with assms u l Inr show ?thesis
        by (simp add: updateCallsThrow_def updateExisting_def reconcileEnvironmentVariables_def
                      await_def invoke_def split: prod.splits)
    next
      case current: (Inr current)
      let ?w2 = "(s2, snd ?w1 @ [ListEnvironmentVariables ?a])"
      let ?vs = "varsToDelete desired current"
      have vs: "?vs = filter (\<lambda>v. ev_key v \<notin> ev_key ` set desired) current"
        by (simp add: varsToDelete_def)
      obtain r3 w3 where d: "deleteEnvironmentVariables c ?a ?vs ?w2 = (r3, w3)"
        by (cases "deleteEnvironmentVariables c ?a ?vs ?w2")
      from deleteEnvironmentVariables_thrown[OF d]
      have d': "deleteCallsThrow c ?a ?vs s2 = ((case r3 of Inl e \<Rightarrow> Some e | Inr _ \<Rightarrow> None), fst w3)"
        by simp
      show ?thesis
      proof (cases r3)
        case (Inl e3)
        with assms u l Inr current d d' vs show ?thesis
          by (simp add: updateCallsThrow_def updateExisting_def reconcileEnvironmentVariables_def
                        deleteEnvironmentVariables_if await_def invoke_def split: prod.splits)
      next
        case x3: (Inr x3)
        obtain r4 w4 where p: "(if desired \<noteq> [] then invoke (UpdateEnvironmentVariables ?a desired)
                            (updateEnvironmentVariables c ?a desired)
                         else resolve ()) w3 = (r4, w4)"
          by (cases "(if desired \<noteq> [] then invoke (UpdateEnvironmentVariables ?a desired)
                            (updateEnvironmentVariables c ?a desired)
                         else resolve ()) w3")
        note p' = push_thrown[OF p]
        show ?thesis
        proof (cases r4)
          case (Inl e4)
          with assms u l Inr current d d' vs x3 p p' show ?thesis
            by (simp add: updateCallsThrow_def updateExisting_def reconcileEnvironmentVariables_def
                        deleteEnvironmentVariables_if await_def invoke_def split: prod.splits)
        next
          case x4: (Inr x4)
          obtain r5 w5 where y: "invoke (DeployApplication ?a) (deployApplication c ?a) w4 = (r5, w5)"
            by (cases "invoke (DeployApplication ?a) (deployApplication c ?a) w4")
          note y' = deploy_thrown[OF y]
          from assms u l Inr current d' vs x3 p' x4 y' obtain e5 where "r5 = Inl e5" "e5 = e"
            by (auto simp: updateCallsThrow_def split: sum.splits)
          with u l Inr current d x3 p x4 y show ?thesis
            by (simp add: updateExisting_def reconcileEnvironmentVariables_def
                        deleteEnvironmentVariables_if await_def invoke_def split: prod.splits)
        qed
      qed
    qed
  qed
qed


lemma createNew_throws:
  assumes "createCallsThrow c opts r serverId environmentUuid desired (fst w) = Some e"
  shows "fst (createNew c opts r serverId environmentUuid desired w) = Inl e"
proof -
  let ?co = "BuildCreateOptions r (m_projectId (opt_manifest opts)) serverId
                (m_environmentName (opt_manifest opts)) environmentUuid
                (m_destinationId (opt_manifest opts)) (opt_dockerTag opts)"
  obtain r1 s1 where u: "createDockerImageApplication c ?co (fst w) = (r1, s1)"
    by (cases "createDockerImageApplication c ?co (fst w)")
  show ?thesis
  proof (cases r1)
    case (Inl e1)
    with assms u show ?thesis
      by (simp add: createCallsThrow_def createNew_def Let_def await_def invoke_def split: prod.splits)
  next
    case (Inr a)
    let ?w1 = "(s1, snd w @ [CreateDockerImageApplication ?co])"
    obtain r4 w4 where p: "(if desired \<noteq> [] then invoke (UpdateEnvironmentVariables a desired)
                            (updateEnvironmentVariables c a desired)
                         else resolve ()) ?w1 = (r4, w4)"
      by (cases "(if desired \<noteq> [] then invoke (UpdateEnvironmentVariables a desired)
                            (updateEnvironmentVariables c a desired)
                         else resolve ()) ?w1")
    from push_thrown[OF p]
    have p': "pushCallThrows c a desired s1 = ((case r4 of Inl e \<Rightarrow> Some e | Inr _ \<Rightarrow> None), fst w4)"
      by simp
    show ?thesis
    proof (cases r4)
      case (Inl e4)
      with assms u Inr p p' show ?thesis
        by (simp add: createCallsThrow_def createNew_def Let_def await_def invoke_def split: prod.splits)
    next
      case x4: (Inr x4)
      obtain r5 w5 where y: "invoke (DeployApplication a) (deployApplication c a) w4 = (r5, w5)"
        by (cases "invoke (DeployApplication a) (deployApplication c a) w4")
      note y' = deploy_thrown[OF y]
      from assms u Inr p' x4 y' obtain e5 where "r5 = Inl e5" "e5 = e"
        by (auto simp: createCallsThrow_def split: sum.splits)
      with u Inr p x4 y show ?thesis
        by (simp add: createNew_def Let_def await_def invoke_def split: prod.splits)
    qed
  qed
qed

lemma reconcileResource_throws:
  assumes "desiredEnvVars (secretsOf opts) r = Inr desired"
    and "resourceCallsThrow c opts serverId environment r (fst w) = Some e"
  shows "fst (reconcileResource c opts r serverId (env_uuid environment) (env_id environment)
                desired w) = Inl e
         \<or> fst (reconcileResource c opts r serverId (env_uuid environment) (env_id environment)
                desired w) = Inr (failedResult (r_name r) e)"
proof -
  obtain r0 s0 where f: "findApplicationByName c (r_name r) (env_id environment) (fst w) = (r0, s0)"
    by (cases "findApplicationByName c (r_name r) (env_id environment) (fst w)")
  let ?w0 = "(s0, snd w @ [FindApplicationByName (r_name r) (env_id environment)])"
  show ?thesis
  proof (cases r0)
    case (Inl e0)
    with assms f show ?thesis
      by (simp add: resourceCallsThrow_def reconcileResource_def lookupApplication_def
                    await_def invoke_def)
  next
    case (Inr existing)
    show ?thesis
    proof (cases existing)
      case None
      with assms f Inr have "createCallsThrow c opts r serverId (env_uuid environment) desired (fst ?w0) = Some e"
        by (simp add: resourceCallsThrow_def)
      from createNew_throws[OF this] f Inr None show ?thesis
        by (auto simp: reconcileResource_def lookupApplication_def createOrUpdate_def
                      await_def invoke_def tryCatch_def resolve_def split: prod.splits sum.splits)
    next
      case (Some app)
      with assms f Inr have "updateCallsThrow c opts r app desired (fst ?w0) = Some e"
        by (simp add: resourceCallsThrow_def)
      from updateExisting_throws[OF this] f Inr Some show ?thesis
        by (auto simp: reconcileResource_def lookupApplication_def createOrUpdate_def
                      await_def invoke_def tryCatch_def resolve_def split: prod.splits sum.splits)
    qed
  qed
qed

text \<open>
  Claim C3, as the spec states it: when a remote call made for one resource throws, the
  resource is recorded as failed with the error's message as its error text.  This
  fails when what is thrown is not an \<^verbatim>\<open>Error\<close> object: the text recorded is the
  string form of the thrown value.  Below the application lookup throws the plain object
  \<^verbatim>\<open>{ message: "API Error" }\<close>, and the entry's error text is \<^verbatim>\<open>[object Object]\<close>.
\<close>

theorem thrown_object_loses_its_message:
  "fst (findApplicationByName objectThrowingClient ''test-app'' 1 ())
     = Inl (Value ''[object Object]'' (Some ''API Error''))
   \<and> fst (reconcile objectThrowingClient (testOptions [testApp] []) start) =
       Inr \<lparr>success = False,
            resources =
              [\<lparr>res_name = ''test-app'', res_action = Failed, res_uuid = None,
                res_deploymentUuid = None, res_error = Some ''[object Object]''\<rparr>],
            totalCreated = 0, totalUpdated = 0, totalFailed = 1, totalPruned = 0\<rparr>"
  by code_simp

text \<open>
  Claim C3, amended: when the secret of a resource can be parsed and one of the remote
  calls made for the resource throws (the application lookup, the update or create
  call, the listing of the environment variables, a delete call for one of them, the
  batch update, the deploy trigger, each run on the remote state its predecessors
  left), then the loop records exactly one entry for the resource, with the resource's
  name, action \<open>failed\<close>, no identifiers, and as error text the message of the thrown
  value when it is an \<^verbatim>\<open>Error\<close> object and the string form of the thrown value
  otherwise (\<^verbatim>\<open>undefined\<close>, \<^verbatim>\<open>null\<close>, or the string form of any other value that
  has one); the count of failures grows by one; and the loop goes on with the resources
  that follow.
\<close>

theorem throwing_call_fails_its_resource_only:
  assumes "resourceCallsThrow c opts serverId environment r (fst w) = Some e"
  shows "fst (processResource c opts serverId environment r p w)
           = p\<lparr>results := results p @
                  [\<lparr>res_name = r_name r, res_action = Failed, res_uuid = None,
                    res_deploymentUuid = None,
                    res_error = Some (case e of Error m \<Rightarrow> m | Undefined \<Rightarrow> ''undefined''
                                       | Null \<Rightarrow> ''null'' | Value s _ \<Rightarrow> s)\<rparr>],
                failed := failed p + 1\<rparr>
         \<and> processResources c opts serverId environment (r # rest) p w
             = processResources c opts serverId environment rest
                 (p\<lparr>results := results p @
                      [\<lparr>res_name = r_name r, res_action = Failed, res_uuid = None,
                        res_deploymentUuid = None,
                        res_error = Some (case e of Error m \<Rightarrow> m | Undefined \<Rightarrow> ''undefined''
                                           | Null \<Rightarrow> ''null'' | Value s _ \<Rightarrow> s)\<rparr>],
                    failed := failed p + 1\<rparr>)
                 (snd (processResource c opts serverId environment r p w))"
proof -
  from assms obtain desired where d: "desiredEnvVars (secretsOf opts) r = Inr desired"
    by (auto simp: resourceCallsThrow_def split: sum.splits)
  have m: "errorMessage e = (case e of Error m \<Rightarrow> m | Undefined \<Rightarrow> ''undefined''
                                       | Null \<Rightarrow> ''null'' | Value s _ \<Rightarrow> s)"
    by (cases e) simp_all
  from reconcileResource_throws[OF d assms]
  have "fst (processResource c opts serverId environment r p w)
           = p\<lparr>results := results p @
                  [\<lparr>res_name = r_name r, res_action = Failed, res_uuid = None,
                    res_deploymentUuid = None,
                    res_error = Some (case e of Error m \<Rightarrow> m | Undefined \<Rightarrow> ''undefined''
                                       | Null \<Rightarrow> ''null'' | Value s _ \<Rightarrow> s)\<rparr>],
                failed := failed p + 1\<rparr>"
    by (auto simp: processResource_def d pushFailure_def pushResult_def failedResult_def m
             split: prod.splits sum.splits)
  then show ?thesis by (simp add: Let_def split: prod.splits)
qed

theorem throwing_call_fails_its_resource_only_witness:
  "resourceCallsThrow firstLookupFailsClient (testOptions [app1, app2] []) ''test-server-id''
     productionEnvironment app1 () = Some (Error ''API Error'')
   \<and> fst (processResources firstLookupFailsClient (testOptions [app1, app2] [])
            ''test-server-id'' productionEnvironment [app1, app2] noProgress start)
       = \<lparr>results =
            [\<lparr>res_name = ''app-1'', res_action = Failed, res_uuid = None,
              res_deploymentUuid = None, res_error = Some ''API Error''\<rparr>,
             \<lparr>res_name = ''app-2'', res_action = Created, res_uuid = Some ''new-app-uuid'',
              res_deploymentUuid = Some ''deploy-uuid'', res_error = None\<rparr>],
          created = 1, updated = 0, failed = 1\<rparr>
   \<and> resourceCallsThrow deployFailsClient (testOptions [testApp] []) ''test-server-id''
       productionEnvironment testApp () = Some (Error ''API Error'')
   \<and> fst (processResource deployFailsClient (testOptions [testApp] []) ''test-server-id''
            productionEnvironment testApp noProgress start)
       = \<lparr>results =
            [\<lparr>res_name = ''test-app'', res_action = Failed, res_uuid = None,
              res_deploymentUuid = None, res_error = Some ''API Error''\<rparr>],
          created = 0, updated = 0, failed = 1\<rparr>
   \<and> resourceCallsThrow variableDeleteFailsClient (testOptions [testApp] [])
       ''test-server-id'' productionEnvironment testApp ()
       = Some (Value ''[object Object]'' (Some ''API Error''))
   \<and> fst (processResource variableDeleteFailsClient (testOptions [testApp] [])
            ''test-server-id'' productionEnvironment testApp noProgress start)
       = \<lparr>results =
            [\<lparr>res_name = ''test-app'', res_action = Failed, res_uuid = None,
              res_deploymentUuid = None, res_error = Some ''[object Object]''\<rparr>],
          created = 0, updated = 0, failed = 1\<rparr>"
proof -
  let ?two = "testOptions [app1, app2] []"
  let ?one = "testOptions [testApp] []"
  let ?env = productionEnvironment
  let ?sid = "''test-server-id''"
  let ?failed1 = "noProgress\<lparr>results := results noProgress @
                    [\<lparr>res_name = r_name app1, res_action = Failed, res_uuid = None,
                      res_deploymentUuid = None,
                      res_error = Some (case Error ''API Error'' of Error m \<Rightarrow> m
                                         | Undefined \<Rightarrow> ''undefined''
                                         | Null \<Rightarrow> ''null'' | Value s _ \<Rightarrow> s)\<rparr>],
                  failed := failed noProgress + 1\<rparr>"
  have a: "resourceCallsThrow firstLookupFailsClient ?two ?sid ?env app1 (fst start)
             = Some (Error ''API Error'')"
    by code_simp
  have b: "resourceCallsThrow deployFailsClient ?one ?sid ?env testApp (fst start)
             = Some (Error ''API Error'')"
    by code_simp
  have c: "resourceCallsThrow variableDeleteFailsClient ?one ?sid ?env testApp (fst start)
             = Some (Value ''[object Object]'' (Some ''API Error''))"
    by code_simp
  have next1: "fst (processResources firstLookupFailsClient ?two ?sid ?env [app2] ?failed1
                 (snd (processResource firstLookupFailsClient ?two ?sid ?env app1 noProgress
                         start)))
       = \<lparr>results =
            [\<lparr>res_name = ''app-1'', res_action = Failed, res_uuid = None,
              res_deploymentUuid = None, res_error = Some ''API Error''\<rparr>,
             \<lparr>res_name = ''app-2'', res_action = Created, res_uuid = Some ''new-app-uuid'',
              res_deploymentUuid = Some ''deploy-uuid'', res_error = None\<rparr>],
          created = 1, updated = 0, failed = 1\<rparr>"
    by code_simp
  note first = throwing_call_fails_its_resource_only
                 [where c = firstLookupFailsClient and opts = ?two and serverId = ?sid
                    and environment = ?env and r = app1 and w = start and p = noProgress
                    and rest = "[app2]", OF a]
  note second = throwing_call_fails_its_resource_only
                 [where c = deployFailsClient and opts = ?one and serverId = ?sid
                    and environment = ?env and r = testApp and w = start and p = noProgress
                    and rest = "[]", OF b]
  note third = throwing_call_fails_its_resource_only
                 [where c = variableDeleteFailsClient and opts = ?one and serverId = ?sid
                    and environment = ?env and r = testApp and w = start and p = noProgress
                    and rest = "[]", OF c]
  from first next1
  have r1: "fst (processResources firstLookupFailsClient ?two ?sid ?env [app1, app2]
                   noProgress start)
       = \<lparr>results =
            [\<lparr>res_name = ''app-1'', res_action = Failed, res_uuid = None,
              res_deploymentUuid = None, res_error = Some ''API Error''\<rparr>,
             \<lparr>res_name = ''app-2'', res_action = Created, res_uuid = Some ''new-app-uuid'',
              res_deploymentUuid = Some ''deploy-uuid'', res_error = None\<rparr>],
          created = 1, updated = 0, failed = 1\<rparr>"
    by (simp only:)
  from second
  have r2: "fst (processResource deployFailsClient ?one ?sid ?env testApp noProgress start)
       = \<lparr>results =
            [\<lparr>res_name = ''test-app'', res_action = Failed, res_uuid = None,
              res_deploymentUuid = None, res_error = Some ''API Error''\<rparr>],
          created = 0, updated = 0, failed = 1\<rparr>"
    by (simp add: noProgress_def testApp_def)
  from third
  have r3: "fst (processResource variableDeleteFailsClient ?one ?sid ?env testApp noProgress
                   start)
       = \<lparr>results =
            [\<lparr>res_name = ''test-app'', res_action = Failed, res_uuid = None,
              res_deploymentUuid = None, res_error = Some ''[object Object]''\<rparr>],
          created = 0, updated = 0, failed = 1\<rparr>"
    by (simp add: noProgress_def testApp_def)
  from a b c r1 r2 r3 show ?thesis by (simp add: start_def)
qed

subsection \<open>The deployment waits\<close>

text \<open>
  Claim C7, as the spec states it: a wait is issued for every entry that carries a
  deployment identifier and every wait settles by itself; for each rejected wait the
  entry with the matching identifier is rewritten to \<open>failed\<close> with the rejection's
  message and \<open>totalFailed\<close> grows once per rejected wait; for each succeeded wait the
  created or updated entry stays as it is; with no such entry no wait is issued.  This
  fails in two ways.  When two entries carry the same identifier, the entry to rewrite
  is looked up by identifier, so the first one is taken: below, the wait of \<open>app-1\<close>
  succeeds and the wait of \<open>app-2\<close> is rejected, yet \<open>app-1\<close> is rewritten and
  \<open>app-2\<close> stays \<open>created\<close>.  When a wait is rejected with \<^verbatim>\<open>undefined\<close> as its
  reason, reading the reason's message raises a \<^verbatim>\<open>TypeError\<close> and the run throws
  before any entry is rewritten.
\<close>

theorem shared_identifier_and_undefined_reason:
  "fst (waitForDeployments flakyWaitClient
          [(''app-1'', ''deploy-uuid''), (''app-2'', ''deploy-uuid'')] (0, []))
     = [Inr (), Inl deploymentFailed]
   \<and> fst (reconcile flakyWaitClient (testOptions [app1, app2] []) (0, [])) =
       Inr \<lparr>success = False,
            resources =
              [\<lparr>res_name = ''app-1'', res_action = Failed, res_uuid = Some ''new-app-uuid'',
                res_deploymentUuid = Some ''deploy-uuid'',
                res_error = Some ''Deployment failed''\<rparr>,
               \<lparr>res_name = ''app-2'', res_action = Created, res_uuid = Some ''new-app-uuid'',
                res_deploymentUuid = Some ''deploy-uuid'', res_error = None\<rparr>],
            totalCreated = 2, totalUpdated = 0, totalFailed = 1, totalPruned = 0\<rparr>
   \<and> fst (waitForDeployments undefinedRejectionClient [(''test-app'', ''deploy-uuid'')] start)
       = [Inl Undefined]
   \<and> fst (reconcile undefinedRejectionClient (testOptions [testApp] []) start)
       = Inl (cannotReadMessage ''undefined'')"
  by code_simp

text \<open>
  Claim C7, amended: in the deployment-wait phase one wait call is issued for every
  result entry that carries a deployment identifier (one that is not the empty string),
  in the order of the entries, and every wait settles by itself; if no entry carries a deployment identifier no wait call
  is issued and nothing changes.  When no wait is rejected with \<^verbatim>\<open>undefined\<close> or
  \<^verbatim>\<open>null\<close> as its reason, the phase completes and \<open>totalFailed\<close> grows exactly once per
  rejected wait; when, moreover, the deployment identifiers carried by the entries are
  pairwise distinct, the entry of each rejected wait is rewritten to \<open>failed\<close> with the
  \<^verbatim>\<open>message\<close> property of the rejection's reason as its error text (no error text when
  the reason has no such property) and every other entry, the entry of each succeeded
  wait included, is left unchanged.
\<close>

theorem deployment_waits_settle:
  "deploymentsOf rs =
     map (\<lambda>r. (res_name r, the (res_deploymentUuid r)))
       (filter (\<lambda>r. res_deploymentUuid r \<noteq> None \<and> res_deploymentUuid r \<noteq> Some []) rs)
   \<and> snd (snd (awaitDeployments c rs w)) =
     snd w @ map (\<lambda>d. WaitForDeployment (snd d)) (deploymentsOf rs)
   \<and> length (fst (waitForDeployments c (deploymentsOf rs) w)) = length (deploymentsOf rs)
   \<and> (\<not> nullishRejection (fst (waitForDeployments c (deploymentsOf rs) w)) \<longrightarrow>
        (\<exists>rs'. fst (awaitDeployments c rs w) =
                  Inr (rs', length (filter isl (fst (waitForDeployments c (deploymentsOf rs) w))))
           \<and> (distinct (map snd (deploymentsOf rs)) \<longrightarrow>
                rs' = map (settledEntry
                             (map_of (zip (map snd (deploymentsOf rs))
                                          (fst (waitForDeployments c (deploymentsOf rs) w)))))
                        rs)))
   \<and> (deploymentsOf rs = [] \<longrightarrow> awaitDeployments c rs w = (Inr (rs, 0), w))
   \<and> (fst (reconcileResources c opts sid env w0) = Inr res \<longrightarrow>
        (\<exists>pruned w2 settled failures.
           pruneResources c (env_id env) (m_resources (opt_manifest opts))
             (snd (processResources c opts sid env (m_resources (opt_manifest opts))
                     noProgress w0)) = (Inr pruned, w2)
           \<and> fst (awaitDeployments c
                 (results (fst (processResources c opts sid env (m_resources (opt_manifest opts))
                     noProgress w0)) @ pruned) w2) = Inr (settled, failures)
           \<and> resources res = settled
           \<and> totalFailed res =
               failed (fst (processResources c opts sid env (m_resources (opt_manifest opts))
                     noProgress w0)) + failures))"
proof (intro conjI impI)
  show "deploymentsOf rs =
          map (\<lambda>r. (res_name r, the (res_deploymentUuid r)))
            (filter (\<lambda>r. res_deploymentUuid r \<noteq> None \<and> res_deploymentUuid r \<noteq> Some []) rs)"
    by (induction rs) (auto split: option.splits)
  show "snd (snd (awaitDeployments c rs w)) =
          snd w @ map (\<lambda>d. WaitForDeployment (snd d)) (deploymentsOf rs)"
    by (rule awaitDeployments_calls)
  show "length (fst (waitForDeployments c (deploymentsOf rs) w)) = length (deploymentsOf rs)"
    by (rule waitForDeployments_length)
next
  assume n: "\<not> nullishRejection (fst (waitForDeployments c (deploymentsOf rs) w))"
  from awaitDeployments_Inr[OF n] obtain rs' where
    a: "fst (awaitDeployments c rs w) =
          Inr (rs', length (filter isl (fst (waitForDeployments c (deploymentsOf rs) w))))"
    by blast
  have "rs' = map (settledEntry
                     (map_of (zip (map snd (deploymentsOf rs))
                                  (fst (waitForDeployments c (deploymentsOf rs) w))))) rs"
    if "distinct (map snd (deploymentsOf rs))"
    using awaitDeployments_distinct[OF that n] a by simp
  with a show "\<exists>rs'. fst (awaitDeployments c rs w) =
                  Inr (rs', length (filter isl (fst (waitForDeployments c (deploymentsOf rs) w))))
           \<and> (distinct (map snd (deploymentsOf rs)) \<longrightarrow>
                rs' = map (settledEntry
                             (map_of (zip (map snd (deploymentsOf rs))
                                          (fst (waitForDeployments c (deploymentsOf rs) w)))))
                        rs)"
    by blast
next
  assume "deploymentsOf rs = []"
  then show "awaitDeployments c rs w = (Inr (rs, 0), w)" by (simp add: awaitDeployments_def)
next
  assume "fst (reconcileResources c opts sid env w0) = Inr res"
  from reconcileResources_Inr[OF this]
  show "\<exists>pruned w2 settled failures.
           pruneResources c (env_id env) (m_resources (opt_manifest opts))
             (snd (processResources c opts sid env (m_resources (opt_manifest opts))
                     noProgress w0)) = (Inr pruned, w2)
           \<and> fst (awaitDeployments c
                 (results (fst (processResources c opts sid env (m_resources (opt_manifest opts))
                     noProgress w0)) @ pruned) w2) = Inr (settled, failures)
           \<and> resources res = settled
           \<and> totalFailed res =
               failed (fst (processResources c opts sid env (m_resources (opt_manifest opts))
                     noProgress w0)) + failures"
    by blast
qed

theorem deployment_waits_settle_witness:
  "distinct (map snd (deploymentsOf deployedEntries))
   \<and> fst (waitForDeployments secondDeploymentFailsClient (deploymentsOf deployedEntries) start)
       = [Inr (), Inl deploymentFailed]
   \<and> \<not> nullishRejection [Inr (), Inl deploymentFailed]
   \<and> fst (awaitDeployments secondDeploymentFailsClient deployedEntries start) =
       Inr ([\<lparr>res_name = ''app-1'', res_action = Created, res_uuid = Some ''uuid-1'',
              res_deploymentUuid = Some ''deploy-1'', res_error = None\<rparr>,
             \<lparr>res_name = ''app-2'', res_action = Failed, res_uuid = Some ''uuid-2'',
              res_deploymentUuid = Some ''deploy-2'', res_error = Some ''Deployment failed''\<rparr>,
             \<lparr>res_name = ''old-app'', res_action = Pruned, res_uuid = Some ''old-app-uuid'',
              res_deploymentUuid = None, res_error = None\<rparr>], 1)
   \<and> snd (snd (awaitDeployments secondDeploymentFailsClient deployedEntries start)) =
       [WaitForDeployment ''deploy-1'', WaitForDeployment ''deploy-2'']
   \<and> deploymentsOf (map environmentMissing [testApp]) = []
   \<and> awaitDeployments secondDeploymentFailsClient (map environmentMissing [testApp]) start =
       (Inr (map environmentMissing [testApp], 0), start)
   \<and> fst (reconcileResources deploymentFailsClient (testOptions [testApp] []) ''test-server-id''
            productionEnvironment start) =
       Inr \<lparr>success = False,
            resources =
              [\<lparr>res_name = ''test-app'', res_action = Failed, res_uuid = Some ''new-app-uuid'',
                res_deploymentUuid = Some ''deploy-uuid'',
                res_error = Some ''Deployment failed''\<rparr>],
            totalCreated = 1, totalUpdated = 0, totalFailed = 1, totalPruned = 0\<rparr>"
proof -
  let ?res = "\<lparr>success = False,
            resources =
              [\<lparr>res_name = ''test-app'', res_action = Failed, res_uuid = Some ''new-app-uuid'',
                res_deploymentUuid = Some ''deploy-uuid'',
                res_error = Some ''Deployment failed''\<rparr>],
            totalCreated = 1, totalUpdated = 0, totalFailed = 1, totalPruned = 0\<rparr>"
  have d: "distinct (map snd (deploymentsOf deployedEntries))" by code_simp
  have o: "fst (waitForDeployments secondDeploymentFailsClient (deploymentsOf deployedEntries) start)
             = [Inr (), Inl deploymentFailed]"
    by code_simp
  have q: "\<not> nullishRejection [Inr (), Inl deploymentFailed]"
    by (simp add: nullishRejection_def deploymentFailed_def)
  have ids: "map snd (deploymentsOf deployedEntries) = [''deploy-1'', ''deploy-2'']" by code_simp
  have n: "deploymentsOf (map environmentMissing [testApp]) = []" by code_simp
  have r: "fst (reconcileResources deploymentFailsClient (testOptions [testApp] []) ''test-server-id''
                 productionEnvironment start) = Inr ?res"
    by code_simp
  note t = deployment_waits_settle
             [where c = secondDeploymentFailsClient and rs = deployedEntries and w = start]
  note u = deployment_waits_settle
             [where c = secondDeploymentFailsClient and rs = "map environmentMissing [testApp]"
                and w = start]
  note v = deployment_waits_settle
             [where c = deploymentFailsClient and opts = "testOptions [testApp] []"
                and sid = "''test-server-id''" and env = productionEnvironment and ?w0.0 = start
                and res = ?res]
  from v r have total:
    "\<exists>pruned w2 settled failures.
       fst (awaitDeployments deploymentFailsClient
           (results (fst (processResources deploymentFailsClient (testOptions [testApp] [])
              ''test-server-id'' productionEnvironment
              (m_resources (opt_manifest (testOptions [testApp] []))) noProgress start))
            @ pruned) w2) = Inr (settled, failures)
       \<and> resources ?res = settled"
    by blast
  have q': "\<not> nullishRejection (fst (waitForDeployments secondDeploymentFailsClient
                                       (deploymentsOf deployedEntries) start))"
    unfolding o by (rule q)
  from t q' d have entries:
    "fst (awaitDeployments secondDeploymentFailsClient deployedEntries start) =
       Inr (map (settledEntry (map_of (zip (map snd (deploymentsOf deployedEntries))
              (fst (waitForDeployments secondDeploymentFailsClient
                      (deploymentsOf deployedEntries) start))))) deployedEntries,
            length (filter isl (fst (waitForDeployments secondDeploymentFailsClient
                                  (deploymentsOf deployedEntries) start))))"
    by blast
  from t have calls:
    "snd (snd (awaitDeployments secondDeploymentFailsClient deployedEntries start)) =
       snd start @ map (\<lambda>d. WaitForDeployment (snd d)) (deploymentsOf deployedEntries)"
    by blast
  from u n have idle:
    "awaitDeployments secondDeploymentFailsClient (map environmentMissing [testApp]) start =
       (Inr (map environmentMissing [testApp], 0), start)"
    by blast
  have e1: "fst (awaitDeployments secondDeploymentFailsClient deployedEntries start) =
       Inr ([\<lparr>res_name = ''app-1'', res_action = Created, res_uuid = Some ''uuid-1'',
              res_deploymentUuid = Some ''deploy-1'', res_error = None\<rparr>,
             \<lparr>res_name = ''app-2'', res_action = Failed, res_uuid = Some ''uuid-2'',
              res_deploymentUuid = Some ''deploy-2'', res_error = Some ''Deployment failed''\<rparr>,
             \<lparr>res_name = ''old-app'', res_action = Pruned, res_uuid = Some ''old-app-uuid'',
              res_deploymentUuid = None, res_error = None\<rparr>], 1)"
    unfolding entries o ids
    by (simp add: deployedEntries_def settledEntry_def deploymentFailed_def)
  have e3: "snd (snd (awaitDeployments secondDeploymentFailsClient deployedEntries start)) =
       [WaitForDeployment ''deploy-1'', WaitForDeployment ''deploy-2'']"
  proof -
    have m: "map (\<lambda>d. WaitForDeployment (snd d)) (deploymentsOf deployedEntries) =
               map WaitForDeployment (map snd (deploymentsOf deployedEntries))"
      by (simp add: comp_def)
    show ?thesis unfolding calls m ids by (simp add: start_def)
  qed
  from total d o q e1 e3 n idle r show ?thesis by blast
qed

subsection \<open>Environment variables\<close>

lemma deleteEnvironmentVariables_Inr:
  "deleteEnvironmentVariables c appUuid vs w = (Inr x, w') \<Longrightarrow>
     snd w' = snd w @ map (\<lambda>e. DeleteEnvironmentVariable appUuid (ev_uuid e)) vs"
proof (induction vs arbitrary: w)
  case Nil
  then show ?case by (simp add: resolve_def)
next
  case (Cons v vs)
  from Cons.prems obtain w1 where
    d: "invoke (DeleteEnvironmentVariable appUuid (ev_uuid v))
          (deleteEnvironmentVariable c appUuid (ev_uuid v)) w = (Inr (), w1)"
    and r: "deleteEnvironmentVariables c appUuid vs w1 = (Inr x, w')"
    by (auto simp: await_eq_Inr)
  from d have "snd w1 = snd w @ [DeleteEnvironmentVariable appUuid (ev_uuid v)]"
    by (auto simp: invoke_eq)
  with Cons.IH[OF r] show ?case by simp
qed

lemma varsToDelete_filter:
  "varsToDelete desired current = filter (\<lambda>e. ev_key e \<notin> ev_key ` set desired) current"
  by (simp add: varsToDelete_def)


lemma reconcileEnvironmentVariables_Inr:
  assumes "reconcileEnvironmentVariables c appUuid desired w = (Inr x, w')"
  shows "\<exists>current. fst (listEnvironmentVariables c appUuid (fst w)) = Inr current
           \<and> snd w' = snd w @ ListEnvironmentVariables appUuid #
               map (\<lambda>e. DeleteEnvironmentVariable appUuid (ev_uuid e)) (varsToDelete desired current)
               @ (if desired = [] then [] else [UpdateEnvironmentVariables appUuid desired])"
proof -
  from assms obtain current w1 w2 where
    l: "invoke (ListEnvironmentVariables appUuid) (listEnvironmentVariables c appUuid) w
          = (Inr current, w1)"
    and d: "(if varsToDelete desired current \<noteq> []
             then deleteEnvironmentVariables c appUuid (varsToDelete desired current)
             else resolve ()) w1 = (Inr (), w2)"
    and u: "(if desired \<noteq> []
             then invoke (UpdateEnvironmentVariables appUuid desired)
                    (updateEnvironmentVariables c appUuid desired)
             else resolve ()) w2 = (Inr x, w')"
    by (auto simp: reconcileEnvironmentVariables_def await_eq_Inr)
  from l have l': "fst (listEnvironmentVariables c appUuid (fst w)) = Inr current"
    "snd w1 = snd w @ [ListEnvironmentVariables appUuid]"
    by (auto simp: invoke_eq)
  from d have d': "snd w2 = snd w1 @
      map (\<lambda>e. DeleteEnvironmentVariable appUuid (ev_uuid e)) (varsToDelete desired current)"
    by (auto simp: resolve_eq split: if_splits dest: deleteEnvironmentVariables_Inr)
  from u have "snd w' = snd w2 @
      (if desired = [] then [] else [UpdateEnvironmentVariables appUuid desired])"
    by (auto simp: resolve_eq invoke_eq split: if_splits)
  with l' d' show ?thesis by auto
qed

lemma envStoreClient_operations:
  "listEnvironmentVariables envStoreClient = storeList"
  "updateEnvironmentVariables envStoreClient = storeUpdate"
  "deleteEnvironmentVariable envStoreClient = storeDelete"
  by (simp_all add: envStoreClient_def)

lemma store_deleteEnvironmentVariables:
  "deleteEnvironmentVariables envStoreClient appUuid vs w = (Inr x, w') \<Longrightarrow>
   fst w appUuid = Some entries \<Longrightarrow>
   fst w' appUuid = Some (filter (\<lambda>e. ev_uuid e \<notin> ev_uuid ` set vs) entries)"
proof (induction vs arbitrary: w entries)
  case Nil
  then show ?case by (simp add: resolve_def)
next
  case (Cons v vs)
  from Cons.prems(1) obtain w1 where
    d: "invoke (DeleteEnvironmentVariable appUuid (ev_uuid v)) (storeDelete appUuid (ev_uuid v)) w
          = (Inr (), w1)"
    and r: "deleteEnvironmentVariables envStoreClient appUuid vs w1 = (Inr x, w')"
    by (auto simp: await_eq_Inr envStoreClient_operations)
  from d Cons.prems(2)
  have "fst w1 appUuid = Some (filter (\<lambda>e. ev_uuid e \<noteq> ev_uuid v) entries)"
    by (auto simp: invoke_eq storeDelete_def split: if_splits)
  from Cons.IH[OF r this] show ?case by (simp add: conj_commute)
qed

lemma overwrite_key: "ev_key (overwrite d e) = ev_key e"
  by (simp add: overwrite_def)

lemma upsert_keys:
  "ev_key ` set (upsert appUuid entries d) = insert (ev_key d) (ev_key ` set entries)"
  by (auto simp: upsert_def image_iff overwrite_key)

lemma foldl_upsert_keys:
  "ev_key ` set (foldl (upsert appUuid) entries ds) = ev_key ` set entries \<union> ev_key ` set ds"
  by (induction ds arbitrary: entries) (auto simp: upsert_keys)

lemma store_reconciled:
  assumes "reconcileEnvironmentVariables envStoreClient appUuid desired w = (Inr x, w')"
  shows "\<exists>entries. fst w' appUuid = Some entries \<and> ev_key ` set entries = ev_key ` set desired"
proof -
  from assms obtain current w1 w2 where
    l: "invoke (ListEnvironmentVariables appUuid) (storeList appUuid) w = (Inr current, w1)"
    and d: "(if varsToDelete desired current \<noteq> []
             then deleteEnvironmentVariables envStoreClient appUuid (varsToDelete desired current)
             else resolve ()) w1 = (Inr (), w2)"
    and u: "(if desired \<noteq> []
             then invoke (UpdateEnvironmentVariables appUuid desired) (storeUpdate appUuid desired)
             else resolve ()) w2 = (Inr (), w')"
    by (auto simp: reconcileEnvironmentVariables_def await_eq_Inr envStoreClient_operations
             cong: if_cong)
  from l have c1: "fst w1 appUuid = Some current"
    by (auto simp: invoke_eq storeList_def split: option.splits)
  define kept where
    "kept = filter (\<lambda>e. ev_uuid e \<notin> ev_uuid ` set (varsToDelete desired current)) current"
  have c2: "fst w2 appUuid = Some kept"
  proof (cases "varsToDelete desired current = []")
    case True
    with d c1 show ?thesis by (simp add: resolve_def kept_def)
  next
    case False
    with d c1 show ?thesis by (simp add: kept_def store_deleteEnvironmentVariables)
  qed
  have sub: "ev_key ` set kept \<subseteq> ev_key ` set desired"
    by (auto simp: kept_def varsToDelete_filter)
  show ?thesis
  proof (cases "desired = []")
    case True
    then have "varsToDelete desired current = current" by (simp add: varsToDelete_filter)
    then have "kept = []" by (auto simp: kept_def filter_empty_conv)
    with True u c2 show ?thesis by (simp add: resolve_def)
  next
    case False
    with u c2 have "fst w' appUuid = Some (foldl (upsert appUuid) kept desired)"
      by (auto simp: invoke_eq storeUpdate_def)
    with sub show ?thesis by (auto simp: foldl_upsert_keys)
  qed
qed


text \<open>
  Claim C5: for every application identifier and desired list of wire-format entries,
  when reconcileEnvironmentVariables completes without error the remote key set of the
  application is exactly the desired key set.  It lists the current entries, deletes
  each current entry whose key is not desired with one delete call of its own, pushes
  the desired entries as one batch update call when there are any, and issues no
  update call when there are none.  The calls are stated for every client; the key set
  is stated for the remote side that stores the entries.
\<close>

theorem environment_variables_reconciled_exactly:
  "(fst (reconcileEnvironmentVariables c appUuid desired w) = Inr () \<longrightarrow>
      (\<exists>current. fst (listEnvironmentVariables c appUuid (fst w)) = Inr current
         \<and> snd (snd (reconcileEnvironmentVariables c appUuid desired w)) =
             snd w @ ListEnvironmentVariables appUuid #
               map (\<lambda>e. DeleteEnvironmentVariable appUuid (ev_uuid e))
                 (filter (\<lambda>e. ev_key e \<notin> ev_key ` set desired) current)
               @ (if desired = [] then [] else [UpdateEnvironmentVariables appUuid desired])))
   \<and> (fst (reconcileEnvironmentVariables envStoreClient appUuid desired v) = Inr () \<longrightarrow>
        (\<exists>entries.
           fst (snd (reconcileEnvironmentVariables envStoreClient appUuid desired v)) appUuid
             = Some entries
           \<and> ev_key ` set entries = ev_key ` set desired))"
proof (intro conjI impI)
  assume "fst (reconcileEnvironmentVariables c appUuid desired w) = Inr ()"
  then have "reconcileEnvironmentVariables c appUuid desired w =
               (Inr (), snd (reconcileEnvironmentVariables c appUuid desired w))"
    by (simp add: prod_eq_iff)
  from reconcileEnvironmentVariables_Inr[OF this]
  show "\<exists>current. fst (listEnvironmentVariables c appUuid (fst w)) = Inr current
         \<and> snd (snd (reconcileEnvironmentVariables c appUuid desired w)) =
             snd w @ ListEnvironmentVariables appUuid #
               map (\<lambda>e. DeleteEnvironmentVariable appUuid (ev_uuid e))
                 (filter (\<lambda>e. ev_key e \<notin> ev_key ` set desired) current)
               @ (if desired = [] then [] else [UpdateEnvironmentVariables appUuid desired])"
    by (simp add: varsToDelete_filter)
next
  assume "fst (reconcileEnvironmentVariables envStoreClient appUuid desired v) = Inr ()"
  then have "reconcileEnvironmentVariables envStoreClient appUuid desired v =
               (Inr (), snd (reconcileEnvironmentVariables envStoreClient appUuid desired v))"
    by (simp add: prod_eq_iff)
  from store_reconciled[OF this]
  show "\<exists>entries.
           fst (snd (reconcileEnvironmentVariables envStoreClient appUuid desired v)) appUuid
             = Some entries
           \<and> ev_key ` set entries = ev_key ` set desired"
    by simp
qed

theorem environment_variables_reconciled_exactly_witness:
  "fst (reconcileEnvironmentVariables existingClient ''existing-app-uuid''
          (envVarsToCoolifyFormat [(''KEY1'', ''new_val1'')]) start) = Inr ()
   \<and> snd (snd (reconcileEnvironmentVariables existingClient ''existing-app-uuid''
                 (envVarsToCoolifyFormat [(''KEY1'', ''new_val1'')]) start)) =
       [ListEnvironmentVariables ''existing-app-uuid'',
        DeleteEnvironmentVariable ''existing-app-uuid'' ''uuid-2'',
        UpdateEnvironmentVariables ''existing-app-uuid''
          (envVarsToCoolifyFormat [(''KEY1'', ''new_val1'')])]
   \<and> fst (reconcileEnvironmentVariables envStoreClient ''existing-app-uuid''
            (envVarsToCoolifyFormat [(''KEY1'', ''new_val1'')]) (remoteStore, [])) = Inr ()
   \<and> fst (snd (reconcileEnvironmentVariables envStoreClient ''existing-app-uuid''
                 (envVarsToCoolifyFormat [(''KEY1'', ''new_val1'')]) (remoteStore, [])))
         ''existing-app-uuid'' =
       Some [\<lparr>ev_key = ''KEY1'', ev_value = ''new_val1'', is_preview = Some False,
               is_literal = Some True, is_multiline = Some False, is_shown_once = Some False,
               ev_uuid = ''uuid-1''\<rparr>]
   \<and> ev_key ` set [\<lparr>ev_key = ''KEY1'', ev_value = ''new_val1'', is_preview = Some False,
                      is_literal = Some True, is_multiline = Some False,
                      is_shown_once = Some False, ev_uuid = ''uuid-1''\<rparr>]
       = ev_key ` set (envVarsToCoolifyFormat [(''KEY1'', ''new_val1'')])"
proof -
  let ?desired = "envVarsToCoolifyFormat [(''KEY1'', ''new_val1'')]"
  let ?app = "''existing-app-uuid''"
  let ?left = "[\<lparr>ev_key = ''KEY1'', ev_value = ''new_val1'', is_preview = Some False,
                 is_literal = Some True, is_multiline = Some False, is_shown_once = Some False,
                 ev_uuid = ''uuid-1''\<rparr>]"
  have a: "fst (reconcileEnvironmentVariables existingClient ?app ?desired start) = Inr ()"
    by code_simp
  have b: "fst (reconcileEnvironmentVariables envStoreClient ?app ?desired (remoteStore, []))
             = Inr ()"
    by code_simp
  have st: "fst (snd (reconcileEnvironmentVariables envStoreClient ?app ?desired
                        (remoteStore, []))) ?app = Some ?left"
    by code_simp
  have l: "fst (listEnvironmentVariables existingClient ?app (fst start)) = Inr remoteEnvVars"
    by (simp add: existingClient_def)
  have k: "ev_key ` set ?desired = {''KEY1''}" by (simp add: envVarsToCoolifyFormat_def)
  have f: "filter (\<lambda>e. ev_key e \<notin> {''KEY1''}) remoteEnvVars
             = [\<lparr>ev_key = ''KEY2'', ev_value = ''val2'', is_preview = None, is_literal = None,
                 is_multiline = None, is_shown_once = None, ev_uuid = ''uuid-2''\<rparr>]"
    by (simp add: remoteEnvVars_def)
  have ne: "?desired \<noteq> []" by (simp add: envVarsToCoolifyFormat_def)
  note t = environment_variables_reconciled_exactly
             [where c = existingClient and appUuid = ?app and desired = ?desired
                and w = start and v = "(remoteStore, [])"]
  from t a l have
    "snd (snd (reconcileEnvironmentVariables existingClient ?app ?desired start)) =
       snd start @ ListEnvironmentVariables ?app #
         map (\<lambda>e. DeleteEnvironmentVariable ?app (ev_uuid e))
           (filter (\<lambda>e. ev_key e \<notin> ev_key ` set ?desired) remoteEnvVars)
         @ (if ?desired = [] then [] else [UpdateEnvironmentVariables ?app ?desired])"
    by auto
  then have c: "snd (snd (reconcileEnvironmentVariables existingClient ?app ?desired start)) =
       [ListEnvironmentVariables ?app, DeleteEnvironmentVariable ?app ''uuid-2'',
        UpdateEnvironmentVariables ?app ?desired]"
    unfolding k f using ne by (simp add: start_def)
  from t b obtain entries where
    "fst (snd (reconcileEnvironmentVariables envStoreClient ?app ?desired (remoteStore, [])))
       ?app = Some entries"
    and "ev_key ` set entries = ev_key ` set ?desired"
    by blast
  with st have d: "ev_key ` set ?left = ev_key ` set ?desired" by simp
  from a b c st d show ?thesis by blast
qed








end
